theory Spec2Isabelle
  imports Main "HOL-Library.Word"
begin

unbundle bit_operations_syntax

section \<open>Machine types and constants\<close>

text \<open>
  \<^verbatim>\<open>size_t\<close> is an unsigned 64-bit word: its arithmetic wraps, its comparisons are
  unsigned. \<^verbatim>\<open>qfileofs_t\<close> is the signed file offset type; it is modelled as a mathematical
  integer (signed overflow is undefined in C, and no offset of the program comes near
  \<open>2 ^ 63\<close>). The casts between the two are written out: \<open>(size_t) x\<close> is
  \<open>word_of_int x\<close>, \<open>(qfileofs_t) n\<close> is \<open>sint n\<close>. C's \<^verbatim>\<open>int\<close> is a 32-bit word read
  with \<open>sint\<close>.
\<close>

type_synonym byte = "8 word"
type_synonym size_t = "64 word"
type_synonym qfileofs_t = int
type_synonym c_int = "32 word"

definition SEEK_SET :: int where "SEEK_SET = 0"
definition SEEK_CUR :: int where "SEEK_CUR = 1"
definition SEEK_END :: int where "SEEK_END = 2"

definition MAX_FILES_IN_PACK :: int where "MAX_FILES_IN_PACK = 2048"
definition MAX_PACK_FILES :: nat where "MAX_PACK_FILES = 32"

text \<open>Modelled from the spec: \<^verbatim>\<open>MAX_QPATH\<close> (quakedef.h), the size of an entry's name
  buffer including the terminator.\<close>
definition MAX_QPATH :: nat where "MAX_QPATH = 64"

text \<open>Modelled from the spec: the constants of the embedded zip reader (miniz.h), with
  the values that miniz gives them.\<close>
definition MZ_ZIP_MAX_IO_BUF_SIZE :: size_t where "MZ_ZIP_MAX_IO_BUF_SIZE = 65536"
definition MZ_ZIP_MAX_ARCHIVE_FILENAME_SIZE :: nat where "MZ_ZIP_MAX_ARCHIVE_FILENAME_SIZE = 512"
definition TINFL_FLAG_HAS_MORE_INPUT :: "32 word" where "TINFL_FLAG_HAS_MORE_INPUT = 2"
definition TINFL_FLAG_USING_NON_WRAPPING_OUTPUT_BUF :: "32 word" where
  "TINFL_FLAG_USING_NON_WRAPPING_OUTPUT_BUF = 4"
definition TINFL_STATUS_DONE :: int where "TINFL_STATUS_DONE = 0"

text \<open>Modelled from the spec: the macro \<^verbatim>\<open>q_min\<close>, the minimum, as
  \<^verbatim>\<open>((a) < (b)) ? (a) : (b)\<close>.\<close>
definition q_min :: "'a::linorder \<Rightarrow> 'a \<Rightarrow> 'a" where
  "q_min a b = (if a < b then a else b)"

section \<open>Fatal errors and observable effects\<close>

text \<open>\<^verbatim>\<open>Sys_Error\<close> terminates the process; a function that may reach it returns
  \<open>Inl (Sys_Error msg)\<close>. Releasing resources and printing are recorded as events.\<close>

datatype error = Sys_Error string

datatype event =
    Fclose
  | Mz_zip_reader_end
  | Free_impl_data
  | Free_files
  | Free_pack
  | Free_inbuf
  | Free_outbuf
  | Free_handle
  | Printf string

section \<open>The operating system file\<close>

text \<open>A stdio stream opened with mode \<^verbatim>\<open>"rb"\<close>: the bytes of the file and the position.\<close>

record FILE =
  contents :: "byte list"
  fpos :: nat

definition fopen :: "(string \<rightharpoonup> byte list) \<Rightarrow> string \<Rightarrow> FILE option" where
  "fopen fs path = (case fs path of None \<Rightarrow> None
     | Some bs \<Rightarrow> Some \<lparr>contents = bs, fpos = 0\<rparr>)"

text \<open>\<^verbatim>\<open>fread (buf, 1, sz, f)\<close>: the bytes delivered and the stream advanced by their number.\<close>
definition fread :: "FILE \<Rightarrow> size_t \<Rightarrow> byte list \<times> FILE" where
  "fread f sz = (let d = take (unat sz) (drop (fpos f) (contents f))
                 in (d, f\<lparr>fpos := fpos f + length d\<rparr>))"

text \<open>Modelled from the spec: \<^verbatim>\<open>Sys_fseek\<close> with \<^verbatim>\<open>SEEK_SET\<close> (absolute positioning on the
  OS file): a negative position is refused, any other becomes the position.\<close>
definition Sys_fseek :: "FILE \<Rightarrow> qfileofs_t \<Rightarrow> int \<times> FILE" where
  "Sys_fseek f pos = (if pos < 0 then (-1, f) else (0, f\<lparr>fpos := nat pos\<rparr>))"

text \<open>Modelled from the spec: \<^verbatim>\<open>Sys_filelength\<close>, the file length.\<close>
definition Sys_filelength :: "FILE \<Rightarrow> qfileofs_t" where
  "Sys_filelength f = int (length (contents f))"

section \<open>Packs and handles\<close>

record packfile_t =
  name :: "byte list"
  filepos :: c_int
  filelen :: c_int

text \<open>What the zip reader reports for one central-directory entry
  (\<^verbatim>\<open>mz_zip_archive_file_stat\<close>), with the raw name bytes of the entry.\<close>
record mz_zip_archive_file_stat =
  m_file_index :: "32 word"
  m_bit_flag :: "16 word"
  m_method :: "16 word"
  m_comp_size :: "64 word"
  m_uncomp_size :: "64 word"
  m_local_header_ofs :: "64 word"
  m_is_directory :: bool
  m_is_supported :: bool
  m_filename :: "byte list"

text \<open>The zip reader's state: the archive size, the OS file it reads through
  \<^verbatim>\<open>m_pRead\<close> (always \<^verbatim>\<open>ZIP_LowLevelRead\<close>), and its parsed central directory.\<close>
record mz_zip_archive =
  m_archive_size :: "64 word"
  m_total_files :: "32 word"
  m_pIO_opaque :: FILE
  m_central_dir :: "mz_zip_archive_file_stat list"

datatype open_fn = PAK_Open_fn | ZIP_Open_fn

record pack_t =
  handle :: FILE
  filename :: string
  numfiles :: c_int
  files :: "packfile_t list option"
  pack_impl_data :: "mz_zip_archive option"
  pakver :: int
  open_file :: open_fn

text \<open>The streaming inflator's buffers; \<open>'d\<close> is the decoder's state
  (\<^verbatim>\<open>tinfl_decompressor\<close>).\<close>
record 'd inflbuffers_t =
  inbuf :: "byte list"
  outbuf :: "byte list"
  foffs_in :: qfileofs_t
  foffs_out :: qfileofs_t
  bsz_in :: size_t
  bsz_out :: size_t
  readsz_in :: size_t
  p_out :: size_t
  p_in :: size_t
  out_read_ptr :: size_t
  eof_flag :: bool
  stat :: mz_zip_archive_file_stat
  infl :: 'd

text \<open>\<^verbatim>\<open>void *data\<close> points to a stdio stream (loose files) or to a pack.\<close>
datatype data_ptr = Data_NULL | Data_FILE FILE | Data_pack pack_t

text \<open>The four function pointers of a handle, by the functions they can hold.\<close>
datatype filesize_fn = FS_FileSize_fn | PAK_FileSize_fn
datatype read_fn = FS_Read_fn | PAK_Read_fn | ZIP_Read_fn
datatype close_fn = FS_Close_fn | PAK_Close_fn | ZIP_Close_fn
datatype seek_fn = FS_Seek_fn | PAK_Seek_fn | ZIP_Seek_fn

record 'd qfshandle_t =
  data :: data_ptr
  impl_data :: "'d inflbuffers_t option"
  fileno :: c_int
  owns_data :: bool
  from_pak :: bool
  offs :: qfileofs_t
  pak_offset :: qfileofs_t
  start :: qfileofs_t
  endtrim :: qfileofs_t
  filesize :: filesize_fn
  read :: read_fn
  close :: close_fn
  seek :: seek_fn

text \<open>The casts \<^verbatim>\<open>(FILE* )handle->data\<close> and \<^verbatim>\<open>(pack_t* )handle->data\<close>.\<close>
fun the_FILE :: "data_ptr \<Rightarrow> FILE" where
  "the_FILE (Data_FILE f) = f"
| "the_FILE _ = undefined"

fun the_pack :: "data_ptr \<Rightarrow> pack_t" where
  "the_pack (Data_pack p) = p"
| "the_pack _ = undefined"

text \<open>\<^verbatim>\<open>QFS_AllocHandle\<close>: a zero-filled handle (\<^verbatim>\<open>calloc\<close>); the four function pointers
  are set by every caller before the handle is used.\<close>
definition QFS_AllocHandle :: "filesize_fn \<Rightarrow> read_fn \<Rightarrow> close_fn \<Rightarrow> seek_fn \<Rightarrow> 'd qfshandle_t" where
  "QFS_AllocHandle fsz rd cl sk =
     \<lparr>data = Data_NULL, impl_data = None, fileno = 0, owns_data = False, from_pak = False,
      offs = 0, pak_offset = 0, start = 0, endtrim = 0,
      filesize = fsz, read = rd, close = cl, seek = sk\<rparr>"

definition QFS_FreePackHandle :: "pack_t option \<Rightarrow> event list" where
  "QFS_FreePackHandle pack = (case pack of None \<Rightarrow> []
     | Some pk \<Rightarrow> [Fclose]
         @ (if pack_impl_data pk \<noteq> None
            then (if pakver pk = 3 then [Mz_zip_reader_end] else []) @ [Free_impl_data] else [])
         @ (if files pk \<noteq> None then [Free_files] else [])
         @ [Free_pack])"

definition QFS_CheckHandle :: "'d qfshandle_t \<Rightarrow> error option" where
  "QFS_CheckHandle h = (if data h = Data_NULL
     then Some (Sys_Error ''Attempting to read from invalid file handle'') else None)"

section \<open>Loose files: the \<^verbatim>\<open>FS_\<close> functions\<close>

text \<open>\<^verbatim>\<open>handle->offs += sz\<close> with \<^verbatim>\<open>sz\<close> a \<^verbatim>\<open>size_t\<close>: the sum is formed on 64 bits.\<close>
definition offs_add :: "qfileofs_t \<Rightarrow> size_t \<Rightarrow> qfileofs_t" where
  "offs_add a n = sint ((word_of_int a :: 64 word) + n)"

definition FS_Close :: "'d qfshandle_t option \<Rightarrow> event list" where
  "FS_Close hp = (case hp of None \<Rightarrow> []
     | Some h \<Rightarrow> (if owns_data h then [Fclose] else []) @ [Free_handle])"

definition FS_Read :: "'d qfshandle_t \<Rightarrow> size_t \<Rightarrow> error + (size_t \<times> byte list \<times> 'd qfshandle_t)" where
  "FS_Read h sz = (case QFS_CheckHandle h of Some e \<Rightarrow> Inl e
     | None \<Rightarrow>
        (case fread (the_FILE (data h)) sz of (d, f') \<Rightarrow>
           Inr (word_of_nat (length d), d,
                h\<lparr>data := Data_FILE f', offs := offs_add (offs h) (word_of_nat (length d))\<rparr>)))"

definition FS_FileSize :: "'d qfshandle_t \<Rightarrow> qfileofs_t" where
  "FS_FileSize h = Sys_filelength (the_FILE (data h))"

definition FS_Seek :: "'d qfshandle_t \<Rightarrow> qfileofs_t \<Rightarrow> int \<times> 'd qfshandle_t" where
  "FS_Seek h pos = (case Sys_fseek (the_FILE (data h)) pos of (r, f') \<Rightarrow>
     (r, h\<lparr>data := Data_FILE f'\<rparr>))"

definition FS_Open :: "(string \<rightharpoonup> byte list) \<Rightarrow> string \<Rightarrow> 'd qfshandle_t option" where
  "FS_Open fs fname = (case fopen fs fname of None \<Rightarrow> None
     | Some stdio_handle \<Rightarrow>
         Some ((QFS_AllocHandle FS_FileSize_fn FS_Read_fn FS_Close_fn FS_Seek_fn)
                 \<lparr>data := Data_FILE stdio_handle, owns_data := True\<rparr>))"

section \<open>Entries of a PAK file: the \<^verbatim>\<open>PAK_\<close> functions\<close>

definition PAK_Close :: "'d qfshandle_t option \<Rightarrow> event list" where
  "PAK_Close hp = (case hp of None \<Rightarrow> []
     | Some h \<Rightarrow>
         (if owns_data h
          then QFS_FreePackHandle (Some ((the_pack (data h))\<lparr>files := None\<rparr>)) else [])
         @ (if impl_data h \<noteq> None then [Free_impl_data] else [])
         @ [Free_handle])"

text \<open>\<^verbatim>\<open>pack->files[handle->fileno].filelen\<close>; the index is in range for every handle
  that \<^verbatim>\<open>PAK_Open\<close> made from an entry of the pack.\<close>
definition PAK_FileSize :: "'d qfshandle_t \<Rightarrow> qfileofs_t" where
  "PAK_FileSize h = sint (filelen (the (files (the_pack (data h))) ! nat (sint (fileno h))))"

definition PAK_Seek :: "'d qfshandle_t \<Rightarrow> qfileofs_t \<Rightarrow> int \<times> 'd qfshandle_t" where
  "PAK_Seek h pos = (0, h\<lparr>offs := pos\<rparr>)"

definition call_filesize :: "'d qfshandle_t \<Rightarrow> qfileofs_t" where
  "call_filesize h = (case filesize h of
       FS_FileSize_fn \<Rightarrow> FS_FileSize h
     | PAK_FileSize_fn \<Rightarrow> PAK_FileSize h)"

text \<open>In \<^verbatim>\<open>actualofs + sz > filesize\<close> the signed \<^verbatim>\<open>actualofs\<close> is converted to
  \<^verbatim>\<open>size_t\<close>; sum, difference and comparison are unsigned.\<close>
definition PAK_Read :: "'d qfshandle_t \<Rightarrow> size_t \<Rightarrow> error + (size_t \<times> byte list \<times> 'd qfshandle_t)" where
  "PAK_Read h sz = (case QFS_CheckHandle h of Some e \<Rightarrow> Inl e
     | None \<Rightarrow>
        (let pack = the_pack (data h);
             actualofs = offs h + start h;
             fsize = (word_of_int (call_filesize h) :: size_t);
             sz1 = (if word_of_int actualofs + sz > fsize then fsize - word_of_int actualofs else sz)
         in if sz1 > 0 \<and> fst (Sys_fseek (handle pack) (pak_offset h + offs h + start h)) = 0
            then (case fread (snd (Sys_fseek (handle pack) (pak_offset h + offs h + start h))) sz1 of
                    (d, f') \<Rightarrow>
                      Inr (word_of_nat (length d), d,
                           h\<lparr>data := Data_pack (pack\<lparr>handle := f'\<rparr>),
                             offs := offs_add (offs h) (word_of_nat (length d))\<rparr>))
            else Inr (sz1, [], h)))"

definition PAK_Open ::
  "(string \<rightharpoonup> byte list) \<Rightarrow> pack_t \<Rightarrow> c_int \<Rightarrow> bool \<Rightarrow> error + 'd qfshandle_t" where
  "PAK_Open fs pack idx reopen_pack =
     (let h = (QFS_AllocHandle PAK_FileSize_fn PAK_Read_fn PAK_Close_fn PAK_Seek_fn)\<lparr>fileno := idx\<rparr>
      in if reopen_pack
         then (case fopen fs (filename pack) of
                 None \<Rightarrow> Inl (Sys_Error (filename pack @ '' failed to reopen.''))
               | Some f \<Rightarrow>
                   Inr (h\<lparr>owns_data := True, data := Data_pack (pack\<lparr>handle := f\<rparr>),
                          pak_offset := sint (filepos (the (files pack) ! nat (sint idx)))\<rparr>))
         else Inr (h\<lparr>data := Data_pack pack,
                     pak_offset := sint (filepos (the (files pack) ! nat (sint idx)))\<rparr>))"

section \<open>Deflated entries of a PK3 file: the \<^verbatim>\<open>ZIP_\<close> functions\<close>

text \<open>Names inside archives are byte strings; OS paths and messages are strings.\<close>
definition str_of_bytes :: "byte list \<Rightarrow> string" where
  "str_of_bytes bs = map (\<lambda>b. char_of (unat b)) bs"

text \<open>The embedded zip reader is not part of the file system; its decoder and its parser
  of the central directory are parameters. \<open>mz_zip_reader_init f size\<close> is the reader state
  for an archive of that size read through \<open>f\<close>, or \<open>None\<close> when the file is no zip archive. \<open>tinfl_decompress r input outbuf p_out szout flags\<close> is given the decoder
  state, the unread input bytes, the output buffer, the offset of its next free byte, the
  free space and the flags; it returns the status, the number of input bytes consumed, the
  number of output bytes produced, the output buffer and the decoder state.\<close>
record 'd miniz =
  mz_zip_reader_init :: "FILE \<Rightarrow> 64 word \<Rightarrow> mz_zip_archive option"
  tinfl_init :: 'd
  tinfl_decompress ::
    "'d \<Rightarrow> byte list \<Rightarrow> byte list \<Rightarrow> size_t \<Rightarrow> size_t \<Rightarrow> 32 word
       \<Rightarrow> int \<times> size_t \<times> size_t \<times> byte list \<times> 'd"

definition LONG_MAX :: "64 word" where "LONG_MAX = 9223372036854775807"

definition ZIP_LowLevelRead :: "FILE \<Rightarrow> 64 word \<Rightarrow> size_t \<Rightarrow> error + (byte list \<times> FILE)" where
  "ZIP_LowLevelRead f ofs n =
     (if ofs > LONG_MAX \<or> fst (Sys_fseek f (sint ofs)) \<noteq> 0
      then Inl (Sys_Error ''Invalid read of at offset'')
      else Inr (fread (snd (Sys_fseek f (sint ofs))) n))"

definition ZIP_Close :: "'d qfshandle_t \<Rightarrow> event list" where
  "ZIP_Close h =
     (if impl_data h \<noteq> None then [Free_inbuf, Free_outbuf, Free_impl_data] else [])
     @ PAK_Close (Some (h\<lparr>impl_data := None\<rparr>))"

text \<open>The flags handed to the decoder. In C the conditional operator binds weaker than
  \<^verbatim>\<open>|\<close>, so the expression of the source is
  \<^verbatim>\<open>c ? TINFL_FLAG_HAS_MORE_INPUT : (0 | TINFL_FLAG_USING_NON_WRAPPING_OUTPUT_BUF)\<close>.\<close>
definition ZIP_Read_flags :: "'d inflbuffers_t \<Rightarrow> 32 word" where
  "ZIP_Read_flags p =
     (if sint (m_comp_size (stat p)) \<ge> foffs_in p
      then TINFL_FLAG_HAS_MORE_INPUT
      else (0 OR TINFL_FLAG_USING_NON_WRAPPING_OUTPUT_BUF))"

text \<open>First part of the loop body: hand buffered output to the caller.\<close>
definition ZIP_Read_copy ::
  "'d qfshandle_t \<Rightarrow> 'd inflbuffers_t \<Rightarrow> size_t \<Rightarrow> size_t \<Rightarrow> byte list
     \<Rightarrow> 'd qfshandle_t \<times> 'd inflbuffers_t \<times> size_t \<times> byte list" where
  "ZIP_Read_copy h p sz rd out =
     (let ncpy = q_min (p_out p - out_read_ptr p) (sz - rd);
          out1 = out @ take (unat ncpy) (drop (unat (out_read_ptr p)) (outbuf p));
          p1 = p\<lparr>out_read_ptr := out_read_ptr p + ncpy\<rparr>;
          h1 = h\<lparr>offs := offs_add (offs h) ncpy\<rparr>;
          p2 = (if out_read_ptr p1 \<ge> p_out p1 then p1\<lparr>out_read_ptr := 0, p_out := 0\<rparr> else p1)
      in (h1, p2, rd + ncpy, out1))"

text \<open>Second part: refill the input buffer when it is used up.\<close>
definition ZIP_Read_refill ::
  "string \<Rightarrow> 'd qfshandle_t \<Rightarrow> 'd inflbuffers_t \<Rightarrow> mz_zip_archive
     \<Rightarrow> error + ('d inflbuffers_t \<times> mz_zip_archive)" where
  "ZIP_Read_refill fname h p z =
     (if p_in p \<ge> readsz_in p
      then (let sz = (word_of_int (q_min (sint (bsz_in p)) (sint (m_comp_size (stat p)) - foffs_in p))
                        :: size_t)
            in case ZIP_LowLevelRead (m_pIO_opaque z) (word_of_int (pak_offset h + foffs_in p)) sz of
                 Inl e \<Rightarrow> Inl e
               | Inr (d, f') \<Rightarrow>
                   if (word_of_nat (length d) :: size_t) \<noteq> sz
                   then Inl (Sys_Error (''File I/O error on '' @ fname))
                   else Inr (p\<lparr>inbuf := d @ drop (length d) (inbuf p),
                               readsz_in := word_of_nat (length d),
                               p_in := 0,
                               foffs_in := offs_add (foffs_in p) (word_of_nat (length d))\<rparr>,
                             z\<lparr>m_pIO_opaque := f'\<rparr>))
      else Inr (p, z))"

text \<open>Third part: run the decoder on what the buffers hold.\<close>
definition ZIP_Read_inflate ::
  "'d miniz \<Rightarrow> string \<Rightarrow> 'd inflbuffers_t \<Rightarrow> error + 'd inflbuffers_t" where
  "ZIP_Read_inflate mz fname p =
     (let szin = readsz_in p - p_in p;
          szout = bsz_out p - p_out p
      in case tinfl_decompress mz (infl p)
                (take (unat szin) (drop (unat (p_in p)) (inbuf p)))
                (outbuf p) (p_out p) szout (ZIP_Read_flags p) of
           (status, szin1, szout1, outbuf1, infl1) \<Rightarrow>
             if status < TINFL_STATUS_DONE
             then Inl (Sys_Error (''Failed to inflate '' @ str_of_bytes (m_filename (stat p))
                                   @ '' in '' @ fname))
             else Inr (p\<lparr>p_in := p_in p + szin1,
                         p_out := p_out p + szout1,
                         foffs_out := offs_add (foffs_out p) szout1,
                         eof_flag := (status = TINFL_STATUS_DONE),
                         outbuf := outbuf1,
                         infl := infl1\<rparr>))"

type_synonym 'd zip_loop_state =
  "'d qfshandle_t \<times> 'd inflbuffers_t \<times> mz_zip_archive \<times> size_t \<times> byte list"

text \<open>One pass through the body of \<^verbatim>\<open>for (;;)\<close>: \<open>Inl\<close> when the pass leaves the loop
  (by \<^verbatim>\<open>return rd\<close> or by \<^verbatim>\<open>Sys_Error\<close>), \<open>Inr\<close> the state for the next pass.\<close>
definition ZIP_Read_step ::
  "'d miniz \<Rightarrow> size_t \<Rightarrow> string \<Rightarrow> 'd zip_loop_state
     \<Rightarrow> (error + 'd zip_loop_state) + 'd zip_loop_state" where
  "ZIP_Read_step mz sz fname s = (case s of (h, p, z, rd, out) \<Rightarrow>
     (let drain = (p_out p \<ge> bsz_out p \<or> eof_flag p) in
      case (if drain then ZIP_Read_copy h p sz rd out else (h, p, rd, out)) of
        (h1, p1, rd1, out1) \<Rightarrow>
          if drain \<and> (rd1 \<ge> sz \<or> (p_out p1 = 0 \<and> eof_flag p1))
          then Inl (Inr (h1, p1, z, rd1, out1))
          else (case ZIP_Read_refill fname h1 p1 z of
                  Inl e \<Rightarrow> Inl (Inl e)
                | Inr (p2, z2) \<Rightarrow>
                    (case ZIP_Read_inflate mz fname p2 of
                       Inl e \<Rightarrow> Inl (Inl e)
                     | Inr p3 \<Rightarrow> Inr (h1, p3, z2, rd1, out1)))))"

text \<open>The loop itself; it has no bound, so a run that never leaves it has no result.\<close>
partial_function (option) ZIP_Read_loop ::
  "'d miniz \<Rightarrow> size_t \<Rightarrow> string \<Rightarrow> 'd zip_loop_state \<Rightarrow> (error + 'd zip_loop_state) option" where
  "ZIP_Read_loop mz sz fname s =
     (case ZIP_Read_step mz sz fname s of
        Inl r \<Rightarrow> Some r
      | Inr s1 \<Rightarrow> ZIP_Read_loop mz sz fname s1)"

declare ZIP_Read_loop.simps [code]

definition ZIP_Read ::
  "'d miniz \<Rightarrow> 'd qfshandle_t \<Rightarrow> size_t
     \<Rightarrow> (error + (size_t \<times> byte list \<times> 'd qfshandle_t)) option" where
  "ZIP_Read mz h sz =
     (let p = the (impl_data h);
          pack = the_pack (data h);
          z = the (pack_impl_data pack)
      in if m_is_directory (stat p) \<or> m_uncomp_size (stat p) = 0 \<or> sz = 0
         then Some (Inr (0, [], h))
         else (case ZIP_Read_loop mz sz (filename pack) (h, p, z, 0, []) of
                 None \<Rightarrow> None
               | Some (Inl e) \<Rightarrow> Some (Inl e)
               | Some (Inr (h1, p1, z1, rd, out)) \<Rightarrow>
                   Some (Inr (rd, out,
                     h1\<lparr>impl_data := Some p1,
                        data := Data_pack (pack\<lparr>pack_impl_data := Some z1\<rparr>)\<rparr>))))"

definition ZIP_Seek ::
  "'d miniz \<Rightarrow> 'd qfshandle_t \<Rightarrow> qfileofs_t \<Rightarrow> (error + (int \<times> 'd qfshandle_t)) option" where
  "ZIP_Seek mz h pos =
     (let p = the (impl_data h);
          buf_start = offs h - sint (out_read_ptr p)
      in if pos \<ge> buf_start \<and> pos - buf_start \<le> sint (p_out p)
         then Some (Inr (0, h\<lparr>impl_data := Some (p\<lparr>out_read_ptr := word_of_int (pos - buf_start)\<rparr>)\<rparr>))
         else if pos > buf_start + sint (p_out p)
         then (let skipcnt = (word_of_int (pos - offs h) :: size_t)
               in case ZIP_Read mz h skipcnt of
                    None \<Rightarrow> None
                  | Some (Inl e) \<Rightarrow> Some (Inl e)
                  | Some (Inr (rd, out, h1)) \<Rightarrow> Some (Inr (if rd = skipcnt then 0 else -1, h1)))
         else (let p0 = p\<lparr>out_read_ptr := 0, p_out := 0, readsz_in := 0,
                           foffs_out := 0, foffs_in := 0, eof_flag := False,
                           infl := tinfl_init mz\<rparr>;
                   h0 = h\<lparr>offs := 0, impl_data := Some p0\<rparr>
               in case ZIP_Read mz h0 (word_of_int pos) of
                    None \<Rightarrow> None
                  | Some (Inl e) \<Rightarrow> Some (Inl e)
                  | Some (Inr (rd, out, h1)) \<Rightarrow>
                      Some (Inr (if rd = (word_of_int pos :: size_t) then 0 else -1, h1))))"

section \<open>Calls through the function pointers of a handle\<close>

definition call_read ::
  "'d miniz \<Rightarrow> 'd qfshandle_t \<Rightarrow> size_t
     \<Rightarrow> (error + (size_t \<times> byte list \<times> 'd qfshandle_t)) option" where
  "call_read mz h sz = (case read h of
       FS_Read_fn \<Rightarrow> Some (FS_Read h sz)
     | PAK_Read_fn \<Rightarrow> Some (PAK_Read h sz)
     | ZIP_Read_fn \<Rightarrow> ZIP_Read mz h sz)"

definition call_seek ::
  "'d miniz \<Rightarrow> 'd qfshandle_t \<Rightarrow> qfileofs_t \<Rightarrow> (error + (int \<times> 'd qfshandle_t)) option" where
  "call_seek mz h pos = (case seek h of
       FS_Seek_fn \<Rightarrow> Some (Inr (FS_Seek h pos))
     | PAK_Seek_fn \<Rightarrow> Some (Inr (PAK_Seek h pos))
     | ZIP_Seek_fn \<Rightarrow> ZIP_Seek mz h pos)"

definition call_close :: "'d qfshandle_t \<Rightarrow> event list" where
  "call_close h = (case close h of
       FS_Close_fn \<Rightarrow> FS_Close (Some h)
     | PAK_Close_fn \<Rightarrow> PAK_Close (Some h)
     | ZIP_Close_fn \<Rightarrow> ZIP_Close h)"

section \<open>The front end: the \<^verbatim>\<open>QFS_\<close> functions on handles\<close>

text \<open>A handle pointer is \<open>None\<close> when it is \<^verbatim>\<open>NULL\<close>. Functions that change the handle
  return it; functions that can reach \<^verbatim>\<open>Sys_Error\<close> or the inflator's loop return
  \<open>Some (Inl e)\<close> for the fatal error and \<open>None\<close> when the loop does not end.\<close>

definition QFS_Eof :: "'d qfshandle_t option \<Rightarrow> bool" where
  "QFS_Eof hp = (case hp of None \<Rightarrow> True
     | Some h \<Rightarrow>
         if offs h - endtrim h \<ge> call_filesize h - start h then True else False)"

definition QFS_ReadFile ::
  "'d miniz \<Rightarrow> 'd qfshandle_t option \<Rightarrow> size_t
     \<Rightarrow> (error + (size_t \<times> byte list \<times> 'd qfshandle_t option)) option" where
  "QFS_ReadFile mz hp sz = (case hp of
       Some h \<Rightarrow>
         (let fsize = call_filesize h;
              size1 = (if offs h + sint sz > fsize - endtrim h
                       then word_of_int (fsize - endtrim h) else sz)
          in case call_read mz h size1 of
               None \<Rightarrow> None
             | Some (Inl e) \<Rightarrow> Some (Inl e)
             | Some (Inr (n, d, h1)) \<Rightarrow> Some (Inr (n, d, Some h1)))
     | None \<Rightarrow> Some (Inr (0, [], None)))"

definition QFS_FileSize :: "'d qfshandle_t option \<Rightarrow> qfileofs_t" where
  "QFS_FileSize hp = (case hp of
       Some h \<Rightarrow> call_filesize h - start h - endtrim h
     | None \<Rightarrow> 0)"

definition QFS_CloseFile :: "'d qfshandle_t option \<Rightarrow> event list" where
  "QFS_CloseFile hp = (case hp of Some h \<Rightarrow> call_close h | None \<Rightarrow> [])"

text \<open>The \<^verbatim>\<open>switch (whence)\<close> of \<^verbatim>\<open>QFS_Seek\<close>: the target, or \<open>None\<close> for the default case.\<close>
definition QFS_Seek_actual_pos :: "'d qfshandle_t \<Rightarrow> qfileofs_t \<Rightarrow> int \<Rightarrow> qfileofs_t option" where
  "QFS_Seek_actual_pos h ofs whence =
     (if whence = SEEK_SET then Some (start h + ofs)
      else if whence = SEEK_CUR then Some (start h + offs h + ofs)
      else if whence = SEEK_END then Some (call_filesize h - endtrim h + ofs)
      else None)"

definition QFS_Seek ::
  "'d miniz \<Rightarrow> 'd qfshandle_t option \<Rightarrow> qfileofs_t \<Rightarrow> int
     \<Rightarrow> (error + (qfileofs_t \<times> 'd qfshandle_t option)) option" where
  "QFS_Seek mz hp ofs whence = (case hp of
       None \<Rightarrow> Some (Inr (-1, None))
     | Some h \<Rightarrow>
        (case QFS_Seek_actual_pos h ofs whence of
           None \<Rightarrow> Some (Inr (-1, Some h))
         | Some actual_pos \<Rightarrow>
             if actual_pos < start h \<or> actual_pos > call_filesize h - (start h + endtrim h)
             then Some (Inr (-1, Some h))
             else (case call_seek mz h actual_pos of
                     None \<Rightarrow> None
                   | Some (Inl e) \<Rightarrow> Some (Inl e)
                   | Some (Inr (r, h1)) \<Rightarrow>
                       if r = 0 then Some (Inr (0, Some (h1\<lparr>offs := actual_pos\<rparr>)))
                       else Some (Inr (-1, Some h1)))))"

definition QFS_Tell :: "'d qfshandle_t option \<Rightarrow> qfileofs_t" where
  "QFS_Tell hp = (case hp of Some h \<Rightarrow> offs h - start h | None \<Rightarrow> 0)"

text \<open>The first statement of \<^verbatim>\<open>QFS_IgnoreBytes\<close>: the chain of \<^verbatim>\<open>if\<close>s that sets the
  trim, or \<open>None\<close> where the chain ends in \<^verbatim>\<open>return false\<close>.\<close>
definition QFS_IgnoreBytes_trim ::
  "'d qfshandle_t \<Rightarrow> qfileofs_t \<Rightarrow> int \<Rightarrow> 'd qfshandle_t option" where
  "QFS_IgnoreBytes_trim h cutn whence =
     (let fsize = call_filesize h
      in if whence = SEEK_SET \<and> cutn \<le> fsize - endtrim h then Some (h\<lparr>start := cutn\<rparr>)
         else if whence = SEEK_END \<and> cutn \<le> fsize - start h then Some (h\<lparr>endtrim := cutn\<rparr>)
         else if whence = SEEK_SET \<and> cutn = 0 then Some (h\<lparr>endtrim := 0, start := 0\<rparr>)
         else None)"

definition QFS_IgnoreBytes ::
  "'d miniz \<Rightarrow> 'd qfshandle_t option \<Rightarrow> qfileofs_t \<Rightarrow> int
     \<Rightarrow> (error + (bool \<times> 'd qfshandle_t option)) option" where
  "QFS_IgnoreBytes mz hp cutn whence = (case hp of
       None \<Rightarrow> Some (Inr (False, None))
     | Some h \<Rightarrow>
        (let fsize = call_filesize h
         in case QFS_IgnoreBytes_trim h cutn whence of
              None \<Rightarrow> Some (Inr (False, Some h))
            | Some h1 \<Rightarrow>
                if offs h1 < start h1
                then (case call_seek mz h1 (start h1) of
                        None \<Rightarrow> None
                      | Some (Inl e) \<Rightarrow> Some (Inl e)
                      | Some (Inr (r, h2)) \<Rightarrow> Some (Inr (r = 0, Some h2)))
                else if offs h1 > start h1 - endtrim h1
                then (case call_seek mz h1 (fsize - start h1 - endtrim h1) of
                        None \<Rightarrow> None
                      | Some (Inl e) \<Rightarrow> Some (Inl e)
                      | Some (Inr (r, h2)) \<Rightarrow> Some (Inr (r = 0, Some h2)))
                else Some (Inr (False, Some h1))))"

section \<open>The table of loaded packs\<close>

text \<open>\<^verbatim>\<open>packs[1 + MAX_PACK_FILES]\<close>; index 0 is a placeholder, so that 0 can mean failure.\<close>
type_synonym packs_t = "pack_t option list"

definition countof_packs :: nat where "countof_packs = 1 + MAX_PACK_FILES"

definition packs_initial :: packs_t where
  "packs_initial = replicate countof_packs None"

function QFS_RegisterPack_loop :: "packs_t \<Rightarrow> pack_t \<Rightarrow> nat \<Rightarrow> int \<times> packs_t \<times> event list" where
  "QFS_RegisterPack_loop packs pack i =
     (if i < countof_packs
      then (if packs ! i = None then (int i, packs[i := Some pack], [])
            else QFS_RegisterPack_loop packs pack (i + 1))
      else (0, packs,
            QFS_FreePackHandle (Some pack) @ [Printf ''WARNING: Too many pack files loaded.'']))"
  by pat_completeness auto
termination
  by (relation "measure (\<lambda>(packs, pack, i). countof_packs - i)") auto

definition QFS_RegisterPack :: "packs_t \<Rightarrow> pack_t \<Rightarrow> int \<times> packs_t \<times> event list" where
  "QFS_RegisterPack packs pack = QFS_RegisterPack_loop packs pack 1"

definition QFS_GetPack :: "packs_t \<Rightarrow> int \<Rightarrow> bool \<Rightarrow> pack_t option \<times> packs_t" where
  "QFS_GetPack packs num unregister =
     (if num > 0 \<and> num < int MAX_PACK_FILES
      then (packs ! nat num, if unregister then packs[nat num := None] else packs)
      else (None, packs))"

definition QFS_PackInfoName :: "packs_t \<Rightarrow> int \<Rightarrow> string option" where
  "QFS_PackInfoName packs packid = (case fst (QFS_GetPack packs packid False) of
     Some pack \<Rightarrow> Some (filename pack) | None \<Rightarrow> None)"

definition QFS_PackInfoNumFiles :: "packs_t \<Rightarrow> int \<Rightarrow> c_int" where
  "QFS_PackInfoNumFiles packs packid = (case fst (QFS_GetPack packs packid False) of
     Some pack \<Rightarrow> numfiles pack | None \<Rightarrow> 0)"

definition QFS_FreePack :: "packs_t \<Rightarrow> int \<Rightarrow> packs_t \<times> event list" where
  "QFS_FreePack packs packid = (case QFS_GetPack packs packid True of
     (pack, packs1) \<Rightarrow> (packs1, QFS_FreePackHandle pack))"

fun QFS_Shutdown_loop :: "nat list \<Rightarrow> packs_t \<Rightarrow> packs_t \<times> event list" where
  "QFS_Shutdown_loop [] packs = (packs, [])"
| "QFS_Shutdown_loop (i # is) packs =
     (if packs ! i \<noteq> None
      then (case QFS_Shutdown_loop is (packs[i := None]) of
              (packs1, ev) \<Rightarrow> (packs1, QFS_FreePackHandle (packs ! i) @ ev))
      else QFS_Shutdown_loop is packs)"

definition QFS_Shutdown :: "packs_t \<Rightarrow> packs_t \<times> event list" where
  "QFS_Shutdown packs = QFS_Shutdown_loop [1 ..< countof_packs] packs"

definition QFS_PackInfoEntrySize :: "packs_t \<Rightarrow> int \<Rightarrow> c_int \<Rightarrow> qfileofs_t" where
  "QFS_PackInfoEntrySize packs packid idx = (case fst (QFS_GetPack packs packid False) of
       Some pack \<Rightarrow>
         if sint idx \<ge> 0 \<and> sint idx < sint (numfiles pack)
         then sint (filelen (the (files pack) ! nat (sint idx))) else 0
     | None \<Rightarrow> 0)"

definition QFS_PackInfoEntryName :: "packs_t \<Rightarrow> int \<Rightarrow> c_int \<Rightarrow> byte list option" where
  "QFS_PackInfoEntryName packs packid idx = (case fst (QFS_GetPack packs packid False) of
       Some pack \<Rightarrow>
         if sint idx \<ge> 0 \<and> sint idx < sint (numfiles pack)
         then Some (name (the (files pack) ! nat (sint idx))) else None
     | None \<Rightarrow> None)"

section \<open>Loading a PAK file\<close>

text \<open>The on-disk integers are little-endian; \<^verbatim>\<open>fread\<close> stores them as they are.\<close>
definition le32 :: "byte list \<Rightarrow> nat \<Rightarrow> c_int" where
  "le32 bs n = word_of_nat (unat (bs ! n) + 256 * unat (bs ! (n + 1))
                 + 65536 * unat (bs ! (n + 2)) + 16777216 * unat (bs ! (n + 3)))"

record dpackheader_t =
  id :: "byte list"
  dirofs :: c_int
  dirlen :: c_int

definition sizeof_dpackheader_t :: nat where "sizeof_dpackheader_t = 12"
definition sizeof_dpackfile_t :: nat where "sizeof_dpackfile_t = 64"

text \<open>\<^verbatim>\<open>fread (&header, 1, sizeof (header), packhandle)\<close>: the header when all of its
  bytes were delivered.\<close>
definition read_dpackheader :: "FILE \<Rightarrow> dpackheader_t option \<times> FILE" where
  "read_dpackheader f = (case fread f (word_of_nat sizeof_dpackheader_t) of (hb, f1) \<Rightarrow>
     (if length hb \<noteq> sizeof_dpackheader_t then None
      else Some \<lparr>id = take 4 hb, dirofs = le32 hb 4, dirlen = le32 hb 8\<rparr>, f1))"

text \<open>\<^verbatim>\<open>header.dirlen / sizeof (dpackfile_t)\<close>: the \<^verbatim>\<open>int\<close> is converted to \<^verbatim>\<open>size_t\<close>
  (sign-extended), the division is unsigned, the quotient is cut to an \<^verbatim>\<open>int\<close>.\<close>
definition pak_numpackfiles :: "dpackheader_t \<Rightarrow> c_int" where
  "pak_numpackfiles header =
     ucast ((word_of_int (sint (dirlen header)) :: size_t) div word_of_nat sizeof_dpackfile_t)"

text \<open>Modelled from the spec: \<^verbatim>\<open>q_strlcpy (dst, src, siz)\<close>, the length-bounded copy of a
  string: the characters of \<^verbatim>\<open>src\<close> before its first NUL, at most \<^verbatim>\<open>siz - 1\<close> of them.\<close>
definition q_strlcpy :: "byte list \<Rightarrow> nat \<Rightarrow> byte list" where
  "q_strlcpy src siz = take (siz - 1) (takeWhile (\<lambda>b. b \<noteq> 0) src)"

text \<open>Modelled from the spec: \<^verbatim>\<open>MAX_OSPATH\<close> (quakedef.h), the size of the buffer of an
  OS path; \<^verbatim>\<open>q_strlcpy\<close> into \<^verbatim>\<open>pack->filename\<close> cuts the path to it.\<close>
definition MAX_OSPATH :: nat where "MAX_OSPATH = 256"

definition q_strlcpy_str :: "string \<Rightarrow> string" where
  "q_strlcpy_str src = take (MAX_OSPATH - 1) src"

definition pak_parse_entry :: "byte list \<Rightarrow> nat \<Rightarrow> packfile_t" where
  "pak_parse_entry info i =
     \<lparr>name = q_strlcpy (drop (sizeof_dpackfile_t * i) info) MAX_QPATH,
      filepos = le32 info (sizeof_dpackfile_t * i + 56),
      filelen = le32 info (sizeof_dpackfile_t * i + 60)\<rparr>"

definition PACK_magic :: "byte list" where
  "PACK_magic = [0x50, 0x41, 0x43, 0x4B]"

definition QFS_LoadPAKFile ::
  "(string \<rightharpoonup> byte list) \<Rightarrow> packs_t \<Rightarrow> string \<Rightarrow> error + (int \<times> packs_t \<times> event list)" where
  "QFS_LoadPAKFile fs packs packfile = (case fopen fs packfile of
       None \<Rightarrow> Inr (0, packs, [])
     | Some packhandle \<Rightarrow>
        (case read_dpackheader packhandle of
           (None, f1) \<Rightarrow> Inl (Sys_Error (packfile @ '' is not a packfile''))
         | (Some header, f1) \<Rightarrow>
             if id header \<noteq> PACK_magic
             then Inl (Sys_Error (packfile @ '' is not a packfile''))
             else (let numpackfiles = pak_numpackfiles header in
               if sint (dirlen header) < 0 \<or> sint (dirofs header) < 0
               then Inl (Sys_Error (''Invalid packfile '' @ packfile))
               else if numpackfiles = 0
               then Inr (0, packs,
                         [Printf (''WARNING: '' @ packfile @ '' has no files, ignored''), Fclose])
               else if sint numpackfiles > MAX_FILES_IN_PACK
               then Inl (Sys_Error (packfile @ '' has too many files''))
               else (case fread (snd (Sys_fseek f1 (sint (dirofs header))))
                                (word_of_int (sint (dirlen header))) of
                       (info, f2) \<Rightarrow>
                         if (word_of_nat (length info) :: c_int) \<noteq> dirlen header
                         then Inl (Sys_Error (''Error reading '' @ packfile))
                         else Inr (QFS_RegisterPack packs
                                \<lparr>handle = f2,
                                 filename = q_strlcpy_str packfile,
                                 numfiles = numpackfiles,
                                 files = Some (map (pak_parse_entry info)
                                                   [0 ..< nat (sint numpackfiles)]),
                                 pack_impl_data = None,
                                 pakver = 1,
                                 open_file = PAK_Open_fn\<rparr>)))))"

section \<open>Loading a PK3 file\<close>

text \<open>Modelled from the spec: \<^verbatim>\<open>mz_zip_reader_file_stat\<close> of the embedded zip reader, the
  entry of the central directory with that index, if there is one.\<close>
definition mz_zip_reader_file_stat :: "mz_zip_archive \<Rightarrow> 32 word \<Rightarrow> mz_zip_archive_file_stat option" where
  "mz_zip_reader_file_stat z i =
     (if unat i < length (m_central_dir z) then Some (m_central_dir z ! unat i) else None)"

text \<open>Modelled from the spec: \<^verbatim>\<open>mz_zip_reader_get_filename\<close> of the embedded zip reader,
  which retrieves the raw name: the name cut to the buffer size less one and terminated;
  the result counts the terminator.\<close>
definition mz_zip_reader_get_filename :: "mz_zip_archive_file_stat \<Rightarrow> nat \<Rightarrow> byte list \<times> size_t" where
  "mz_zip_reader_get_filename st bufsize =
     (let n = min (length (m_filename st)) (bufsize - 1)
      in (take n (m_filename st), word_of_nat (n + 1)))"

text \<open>The string that a \<^verbatim>\<open>char\<close> buffer holds: its bytes before the first NUL.\<close>
definition c_str :: "byte list \<Rightarrow> byte list" where
  "c_str buf = takeWhile (\<lambda>b. b \<noteq> 0) buf"

text \<open>Modelled from the spec: \<^verbatim>\<open>q_strascii\<close>, false when the name contains any byte
  \<open>\<ge> 0x80\<close>.\<close>
definition q_strascii :: "byte list \<Rightarrow> bool" where
  "q_strascii buf = (\<forall>b \<in> set (c_str buf). b < 0x80)"

text \<open>Modelled from the spec: the code points of the upper half of IBM437.\<close>
definition cp437_high :: "nat list" where
  "cp437_high =
    [0x00C7, 0x00FC, 0x00E9, 0x00E2, 0x00E4, 0x00E0, 0x00E5, 0x00E7,
     0x00EA, 0x00EB, 0x00E8, 0x00EF, 0x00EE, 0x00EC, 0x00C4, 0x00C5,
     0x00C9, 0x00E6, 0x00C6, 0x00F4, 0x00F6, 0x00F2, 0x00FB, 0x00F9,
     0x00FF, 0x00D6, 0x00DC, 0x00A2, 0x00A3, 0x00A5, 0x20A7, 0x0192,
     0x00E1, 0x00ED, 0x00F3, 0x00FA, 0x00F1, 0x00D1, 0x00AA, 0x00BA,
     0x00BF, 0x2310, 0x00AC, 0x00BD, 0x00BC, 0x00A1, 0x00AB, 0x00BB,
     0x2591, 0x2592, 0x2593, 0x2502, 0x2524, 0x2561, 0x2562, 0x2556,
     0x2555, 0x2563, 0x2551, 0x2557, 0x255D, 0x255C, 0x255B, 0x2510,
     0x2514, 0x2534, 0x252C, 0x251C, 0x2500, 0x253C, 0x255E, 0x255F,
     0x255A, 0x2554, 0x2569, 0x2566, 0x2560, 0x2550, 0x256C, 0x2567,
     0x2568, 0x2564, 0x2565, 0x2559, 0x2558, 0x2552, 0x2553, 0x256B,
     0x256A, 0x2518, 0x250C, 0x2588, 0x2584, 0x258C, 0x2590, 0x2580,
     0x03B1, 0x00DF, 0x0393, 0x03C0, 0x03A3, 0x03C3, 0x00B5, 0x03C4,
     0x03A6, 0x0398, 0x03A9, 0x03B4, 0x221E, 0x03C6, 0x03B5, 0x2229,
     0x2261, 0x00B1, 0x2265, 0x2264, 0x2320, 0x2321, 0x00F7, 0x2248,
     0x00B0, 0x2219, 0x00B7, 0x221A, 0x207F, 0x00B2, 0x25A0, 0x00A0]"

text \<open>Modelled from the spec: the code point of an IBM437 byte.\<close>
definition cp437_to_unicode :: "byte \<Rightarrow> nat" where
  "cp437_to_unicode b = (if b < 0x80 then unat b else cp437_high ! (unat b - 128))"

text \<open>Modelled from the spec: the UTF-8 encoding of a code point below \<open>0x10000\<close>.\<close>
definition UTF8_WriteCodePoint :: "nat \<Rightarrow> byte list" where
  "UTF8_WriteCodePoint cp =
     (if cp < 0x80 then [word_of_nat cp]
      else if cp < 0x800 then [word_of_nat (0xC0 + cp div 64), word_of_nat (0x80 + cp mod 64)]
      else [word_of_nat (0xE0 + cp div 4096), word_of_nat (0x80 + (cp div 64) mod 64),
            word_of_nat (0x80 + cp mod 64)])"

text \<open>Modelled from the spec: \<^verbatim>\<open>UTF8_FromIBM437 (dst, maxbytes, src)\<close>, which reinterprets
  the name as IBM437 and transcodes it to UTF-8. The result is the string written to
  \<^verbatim>\<open>dst\<close> and the number of bytes written, terminator included (as the count of
  \<^verbatim>\<open>mz_zip_reader_get_filename\<close>, whose variable it replaces). A name of at most 511 bytes
  needs at most 1533 bytes, so that \<^verbatim>\<open>maxbytes\<close>, three times the buffer size, never cuts it.\<close>
definition UTF8_FromIBM437 :: "byte list \<Rightarrow> byte list \<times> size_t" where
  "UTF8_FromIBM437 src =
     (let dst = concat (map (\<lambda>b. UTF8_WriteCodePoint (cp437_to_unicode b)) (c_str src))
      in (dst, word_of_nat (length dst + 1)))"

definition INT_MAX :: "64 word" where "INT_MAX = 2147483647"

text \<open>The body of the loop over the entries of the central directory: \<open>Inr None\<close> for a
  directory, which is skipped, \<open>Inr (Some f)\<close> for the entry that is stored.\<close>
definition QFS_LoadPK3File_entry ::
  "string \<Rightarrow> mz_zip_archive \<Rightarrow> 32 word \<Rightarrow> error + packfile_t option" where
  "QFS_LoadPK3File_entry packfile pk3 i = (case mz_zip_reader_file_stat pk3 i of
       None \<Rightarrow> Inl (Sys_Error (''Failed to get status of an entry in '' @ packfile))
     | Some st \<Rightarrow>
         if \<not> m_is_directory st
         then (if m_uncomp_size st > INT_MAX
               then Inl (Sys_Error (''File in '' @ packfile @ '' is too large.''))
               else (case mz_zip_reader_get_filename st MZ_ZIP_MAX_ARCHIVE_FILENAME_SIZE of
                 (buf, len) \<Rightarrow>
                   (case (if (m_bit_flag st AND push_bit 11 1) = 0 \<and> \<not> q_strascii buf
                          then (case UTF8_FromIBM437 buf of (convbuf, len1) \<Rightarrow>
                                  (if len1 \<le> word_of_nat MZ_ZIP_MAX_ARCHIVE_FILENAME_SIZE
                                   then convbuf else buf, len1))
                          else (buf, len)) of
                      (buf1, len1) \<Rightarrow>
                        if len1 \<ge> word_of_nat MAX_QPATH
                        then Inl (Sys_Error (''File name in '' @ packfile
                                              @ '' exceeds maximum allowed length.''))
                        else Inr (Some \<lparr>name = q_strlcpy buf1 MAX_QPATH,
                                         filepos = ucast (m_file_index st),
                                         filelen = ucast (m_uncomp_size st)\<rparr>))))
         else Inr None)"

text \<open>The loop \<^verbatim>\<open>for (i = 0, numpackfiles = 0; i < entrycount; ++i)\<close>, over the indices
  left; \<open>newfiles\<close> holds the \<^verbatim>\<open>numpackfiles\<close> entries stored so far.\<close>
fun QFS_LoadPK3File_loop ::
  "string \<Rightarrow> mz_zip_archive \<Rightarrow> nat list \<Rightarrow> packfile_t list \<Rightarrow> error + packfile_t list" where
  "QFS_LoadPK3File_loop packfile pk3 [] newfiles = Inr newfiles"
| "QFS_LoadPK3File_loop packfile pk3 (i # is) newfiles =
     (case QFS_LoadPK3File_entry packfile pk3 (word_of_nat i) of
        Inl e \<Rightarrow> Inl e
      | Inr None \<Rightarrow> QFS_LoadPK3File_loop packfile pk3 is newfiles
      | Inr (Some f) \<Rightarrow> QFS_LoadPK3File_loop packfile pk3 is (newfiles @ [f]))"

definition QFS_LoadPK3File ::
  "'d miniz \<Rightarrow> (string \<rightharpoonup> byte list) \<Rightarrow> packs_t \<Rightarrow> string
     \<Rightarrow> error + (int \<times> packs_t \<times> event list)" where
  "QFS_LoadPK3File mz fs packs packfile = (case fopen fs packfile of
       None \<Rightarrow> Inr (0, packs, [])
     | Some pk3handle \<Rightarrow>
        (case mz_zip_reader_init mz pk3handle (word_of_int (Sys_filelength pk3handle)) of
           None \<Rightarrow> Inl (Sys_Error (packfile @ '' can not be opened as a .pk3 file.''))
         | Some pk3 \<Rightarrow>
             if m_total_files pk3 = 0
             then Inr (0, packs,
                       [Printf (''WARNING: '' @ packfile @ '' has no files, ignored''),
                        Fclose, Free_impl_data])
             else (case QFS_LoadPK3File_loop packfile pk3 [0 ..< unat (m_total_files pk3)] [] of
                     Inl e \<Rightarrow> Inl e
                   | Inr newfiles \<Rightarrow>
                       Inr (QFS_RegisterPack packs
                              \<lparr>handle = pk3handle,
                               filename = q_strlcpy_str packfile,
                               numfiles = word_of_nat (length newfiles),
                               files = Some newfiles,
                               pack_impl_data = Some pk3,
                               pakver = 3,
                               open_file = ZIP_Open_fn\<rparr>))))"

text \<open>The stored names in the words of the claim, read on strings: the name of an entry
  is the string of its raw name, the bytes before the first NUL; when bit 11 of the flags
  is clear and the string has a byte \<open>\<ge> 0x80\<close> the stored name is its IBM437-to-UTF-8
  transcoding, otherwise it is the string itself.\<close>
definition spec_stored_name :: "mz_zip_archive_file_stat \<Rightarrow> byte list" where
  "spec_stored_name st =
     (if (m_bit_flag st AND push_bit 11 1) = 0 \<and> (\<exists>b \<in> set (c_str (m_filename st)). b \<ge> 0x80)
      then fst (UTF8_FromIBM437 (m_filename st))
      else c_str (m_filename st))"

definition spec_stored_entry :: "mz_zip_archive_file_stat \<Rightarrow> packfile_t" where
  "spec_stored_entry st =
     \<lparr>name = spec_stored_name st, filepos = ucast (m_file_index st),
      filelen = ucast (m_uncomp_size st)\<rparr>"

text \<open>The entries that are stored for an archive: one for every entry of the central
  directory that is no directory, in the order of the directory.\<close>
definition spec_stored_files :: "mz_zip_archive \<Rightarrow> packfile_t list" where
  "spec_stored_files pk3 =
     map spec_stored_entry
       (filter (\<lambda>st. \<not> m_is_directory st)
          (map (\<lambda>i. m_central_dir pk3 ! i) [0 ..< unat (m_total_files pk3)]))"

section \<open>Opening an entry of a PK3 file\<close>

definition le16 :: "byte list \<Rightarrow> nat \<Rightarrow> 64 word" where
  "le16 bs n = word_of_nat (unat (bs ! n) + 256 * unat (bs ! (n + 1)))"

text \<open>The local file header of the entry: its signature and the two lengths at offset 26
  give the offset of the payload.\<close>
definition ZIP_Open_pak_offset ::
  "string \<Rightarrow> mz_zip_archive \<Rightarrow> mz_zip_archive_file_stat \<Rightarrow> error + (qfileofs_t \<times> mz_zip_archive)" where
  "ZIP_Open_pak_offset fname za st =
     (case ZIP_LowLevelRead (m_pIO_opaque za) (m_local_header_ofs st) 4 of
        Inl e \<Rightarrow> Inl e
      | Inr (local_header1, f1) \<Rightarrow>
          if length local_header1 \<noteq> 4 \<or> le32 local_header1 0 \<noteq> 0x04034b50
          then Inl (Sys_Error (''Truncated or corrupt directory entry in '' @ fname))
          else (case ZIP_LowLevelRead f1 (m_local_header_ofs st + 26) 4 of
                  Inl e \<Rightarrow> Inl e
                | Inr (local_header2, f2) \<Rightarrow>
                    if length local_header2 \<noteq> 4
                    then Inl (Sys_Error (''Truncated or corrupt directory entry in '' @ fname))
                    else Inr (sint (m_local_header_ofs st + 30
                                     + le16 local_header2 0 + le16 local_header2 2),
                              za\<lparr>m_pIO_opaque := f2\<rparr>)))"

text \<open>The buffers come from \<^verbatim>\<open>malloc\<close>; their first contents are never read and are
  taken as zero bytes.\<close>
definition ZIP_Open ::
  "'d miniz \<Rightarrow> (string \<rightharpoonup> byte list) \<Rightarrow> pack_t \<Rightarrow> c_int \<Rightarrow> bool \<Rightarrow> error + 'd qfshandle_t" where
  "ZIP_Open mz fs pack idx reopen_pack = (case PAK_Open fs pack idx reopen_pack of
       Inl e \<Rightarrow> Inl e
     | Inr h0 \<Rightarrow>
        (case (if reopen_pack
               then (case mz_zip_reader_init mz (handle (the_pack (data h0)))
                            (word_of_int (Sys_filelength (handle pack))) of
                       None \<Rightarrow> Inl (Sys_Error (filename pack @ '' failed to reopen.''))
                     | Some za \<Rightarrow> Inr ((the_pack (data h0))\<lparr>pack_impl_data := Some za\<rparr>))
               else Inr pack) of
           Inl e \<Rightarrow> Inl e
         | Inr refpack \<Rightarrow>
            (let za = the (pack_impl_data refpack) in
             case mz_zip_reader_file_stat za (ucast (filepos (the (files refpack) ! nat (sint idx)))) of
               None \<Rightarrow> Inl (Sys_Error ''Unsupported zip file entry'')
             | Some st \<Rightarrow>
                 if \<not> m_is_supported st then Inl (Sys_Error ''Unsupported zip file entry'')
                 else (case ZIP_Open_pak_offset (filename refpack) za st of
                   Inl e \<Rightarrow> Inl e
                 | Inr (ofs, za1) \<Rightarrow>
                     if (word_of_int ofs :: 64 word) + m_comp_size st > m_archive_size za1
                     then Inl (Sys_Error (''Truncated zip file '' @ filename refpack))
                     else (let h1 = h0\<lparr>close := ZIP_Close_fn,
                                        data := Data_pack (refpack\<lparr>pack_impl_data := Some za1\<rparr>),
                                        pak_offset := ofs\<rparr>
                           in if m_method st \<noteq> 0
                              then (let bin = q_min (m_comp_size st) (MZ_ZIP_MAX_IO_BUF_SIZE div 2)
                                    in Inr (h1\<lparr>impl_data := Some
                                               \<lparr>inbuf = replicate (unat bin) 0,
                                                outbuf = replicate (unat MZ_ZIP_MAX_IO_BUF_SIZE) 0,
                                                foffs_in = 0, foffs_out = 0,
                                                bsz_in = bin, bsz_out = MZ_ZIP_MAX_IO_BUF_SIZE,
                                                readsz_in = 0, p_out = 0, p_in = 0,
                                                out_read_ptr = 0, eof_flag = False,
                                                stat = st, infl = tinfl_init mz\<rparr>,
                                              read := ZIP_Read_fn, seek := ZIP_Seek_fn\<rparr>))
                              else Inr (h1\<lparr>read := PAK_Read_fn, seek := PAK_Seek_fn\<rparr>))))))"

definition call_open_file ::
  "'d miniz \<Rightarrow> (string \<rightharpoonup> byte list) \<Rightarrow> pack_t \<Rightarrow> c_int \<Rightarrow> bool \<Rightarrow> error + 'd qfshandle_t" where
  "call_open_file mz fs pack idx reopen_pack = (case open_file pack of
       PAK_Open_fn \<Rightarrow> PAK_Open fs pack idx reopen_pack
     | ZIP_Open_fn \<Rightarrow> ZIP_Open mz fs pack idx reopen_pack)"

section \<open>Finding and opening a file\<close>

text \<open>Modelled from the spec: an element of the search path, a pack (by its id, not 0) or
  a directory, with the path id it reports.\<close>
record searchpath_t =
  path_id :: "32 word"
  sp_filename :: string
  sp_pack :: int

text \<open>The scan \<^verbatim>\<open>for (i = 0; i < pak->numfiles; i++)\<close> for the first entry of that name.\<close>
fun QFS_FindFile_scan :: "packfile_t list \<Rightarrow> byte list \<Rightarrow> nat list \<Rightarrow> nat option" where
  "QFS_FindFile_scan fl fname [] = None"
| "QFS_FindFile_scan fl fname (i # is) =
     (if c_str (name (fl ! i)) \<noteq> c_str fname then QFS_FindFile_scan fl fname is else Some i)"

text \<open>\<^verbatim>\<open>QFS_FindFile\<close>: \<open>want\<close> says that \<^verbatim>\<open>file\<close> is not \<^verbatim>\<open>NULL\<close>; the result is the
  returned size, the handle stored through \<^verbatim>\<open>file\<close> and the path id stored through
  \<^verbatim>\<open>path_id\<close>. A path of the file system names a regular file when the file system maps it.
  The messages for developers at the end of the function are left out.\<close>
fun QFS_FindFile ::
  "'d miniz \<Rightarrow> (string \<rightharpoonup> byte list) \<Rightarrow> packs_t \<Rightarrow> bool \<Rightarrow> searchpath_t list
     \<Rightarrow> byte list \<Rightarrow> bool \<Rightarrow> bool
     \<Rightarrow> error + (qfileofs_t \<times> 'd qfshandle_t option \<times> 32 word option)" where
  "QFS_FindFile mz fs packs registered [] fname want reopen = Inr (-1, None, None)"
| "QFS_FindFile mz fs packs registered (search # rest) fname want reopen =
     (if sp_pack search \<noteq> 0
      then (case fst (QFS_GetPack packs (sp_pack search) False) of
              None \<Rightarrow> Inl (Sys_Error ''QFS_FindFile: invalid pack id.'')
            | Some pak \<Rightarrow>
               (case QFS_FindFile_scan (the (files pak)) fname [0 ..< nat (sint (numfiles pak))] of
                  None \<Rightarrow> QFS_FindFile mz fs packs registered rest fname want reopen
                | Some i \<Rightarrow>
                    if want
                    then (case call_open_file mz fs pak (word_of_nat i) reopen of
                            Inl e \<Rightarrow> Inl e
                          | Inr h \<Rightarrow> Inr (sint (filelen (the (files pak) ! i)), Some h,
                                          Some (path_id search)))
                    else Inr (sint (filelen (the (files pak) ! i)), None, Some (path_id search))))
      else if \<not> registered \<and> (0x2F \<in> set (c_str fname) \<or> 0x5C \<in> set (c_str fname))
      then QFS_FindFile mz fs packs registered rest fname want reopen
      else (let netpath = take (MAX_OSPATH - 1)
                            (sp_filename search @ ''/'' @ str_of_bytes (c_str fname))
            in if fs netpath = None
               then QFS_FindFile mz fs packs registered rest fname want reopen
               else if want
               then (case FS_Open fs netpath of
                       None \<Rightarrow> Inr (-1, None, Some (path_id search))
                     | Some h \<Rightarrow> Inr (Sys_filelength (the_FILE (data h)), Some h,
                                     Some (path_id search)))
               else Inr (0, None, Some (path_id search))))"

definition QFS_FileExists ::
  "'d miniz \<Rightarrow> (string \<rightharpoonup> byte list) \<Rightarrow> packs_t \<Rightarrow> bool \<Rightarrow> searchpath_t list \<Rightarrow> byte list
     \<Rightarrow> error + bool" where
  "QFS_FileExists mz fs packs registered sp fname =
     (case QFS_FindFile mz fs packs registered sp fname False False of
        Inl e \<Rightarrow> Inl e
      | Inr (ret, h, pid) \<Rightarrow> Inr (if ret = -1 then False else True))"

definition QFS_OpenFile ::
  "'d miniz \<Rightarrow> (string \<rightharpoonup> byte list) \<Rightarrow> packs_t \<Rightarrow> bool \<Rightarrow> searchpath_t list \<Rightarrow> byte list
     \<Rightarrow> error + 'd qfshandle_t option" where
  "QFS_OpenFile mz fs packs registered sp fname =
     (case QFS_FindFile mz fs packs registered sp fname True False of
        Inl e \<Rightarrow> Inl e
      | Inr (ret, h, pid) \<Rightarrow> Inr (if ret \<ge> 0 then h else None))"

definition QFS_FOpenFile ::
  "'d miniz \<Rightarrow> (string \<rightharpoonup> byte list) \<Rightarrow> packs_t \<Rightarrow> bool \<Rightarrow> searchpath_t list \<Rightarrow> byte list
     \<Rightarrow> error + 'd qfshandle_t option" where
  "QFS_FOpenFile mz fs packs registered sp fname =
     (case QFS_FindFile mz fs packs registered sp fname True True of
        Inl e \<Rightarrow> Inl e
      | Inr (ret, h, pid) \<Rightarrow> Inr (if ret \<ge> 0 then h else None))"

section \<open>Concrete files, packs and handles\<close>

text \<open>A zip reader that opens no archive and whose decoder always fails; it stands for
  the zip reader wherever only loose files and PAK entries are involved.\<close>
definition no_zip :: "unit miniz" where
  "no_zip = \<lparr>mz_zip_reader_init = (\<lambda>f n. None), tinfl_init = (),
             tinfl_decompress = (\<lambda>r i ob po so fl. (-1, 0, 0, ob, ()))\<rparr>"

text \<open>A loose file of 1000 bytes: 872 bytes of payload and a trailer of 128 bytes (as an
  ID3 tag at the end of a music file).\<close>
definition trailer_file :: "byte list" where
  "trailer_file = replicate 872 1 @ replicate 128 2"

definition trailer_fs :: "string \<rightharpoonup> byte list" where
  "trailer_fs = [''id1/track.wav'' \<mapsto> trailer_file]"

text \<open>The handle as \<^verbatim>\<open>FS_Open\<close> returns it, after \<^verbatim>\<open>QFS_IgnoreBytes (h, 128, SEEK_END)\<close>,
  after \<^verbatim>\<open>QFS_Seek (h, 0, SEEK_END)\<close>, and after a read at that position.\<close>
definition loose_opened :: "unit qfshandle_t" where
  "loose_opened =
     \<lparr>data = Data_FILE \<lparr>contents = trailer_file, fpos = 0\<rparr>, impl_data = None, fileno = 0,
      owns_data = True, from_pak = False, offs = 0, pak_offset = 0, start = 0, endtrim = 0,
      filesize = FS_FileSize_fn, read = FS_Read_fn, close = FS_Close_fn, seek = FS_Seek_fn\<rparr>"

definition loose_trimmed :: "unit qfshandle_t" where
  "loose_trimmed =
     loose_opened\<lparr>data := Data_FILE \<lparr>contents = trailer_file, fpos = 872\<rparr>, endtrim := 128\<rparr>"

definition loose_at_end :: "unit qfshandle_t" where
  "loose_at_end = loose_trimmed\<lparr>offs := 872\<rparr>"

definition loose_after_read :: "unit qfshandle_t" where
  "loose_after_read =
     loose_at_end\<lparr>data := Data_FILE \<lparr>contents = trailer_file, fpos = 1000\<rparr>, offs := 1000\<rparr>"

text \<open>A loaded PAK file with one entry of 1000 bytes at offset 12; the handle as
  \<^verbatim>\<open>PAK_Open\<close> returns it, and after \<^verbatim>\<open>QFS_IgnoreBytes (h, 100, SEEK_SET)\<close>.\<close>
definition pak_example :: pack_t where
  "pak_example =
     \<lparr>handle = \<lparr>contents = replicate 12 0 @ replicate 1000 7 @ replicate 64 0, fpos = 1076\<rparr>,
      filename = ''id1/pak0.pak'', numfiles = 1,
      files = Some [\<lparr>name = [0x61], filepos = 12, filelen = 1000\<rparr>],
      pack_impl_data = None, pakver = 1, open_file = PAK_Open_fn\<rparr>"

definition pak_opened :: "unit qfshandle_t" where
  "pak_opened =
     \<lparr>data = Data_pack pak_example, impl_data = None, fileno = 0,
      owns_data = False, from_pak = False, offs = 0, pak_offset = 12, start = 0, endtrim = 0,
      filesize = PAK_FileSize_fn, read = PAK_Read_fn, close = PAK_Close_fn, seek = PAK_Seek_fn\<rparr>"

definition pak_cut :: "unit qfshandle_t" where
  "pak_cut = pak_opened\<lparr>offs := 100, start := 100\<rparr>"

text \<open>A table of packs in which only the last slot, 32, is free, a pack loaded after
  the others, and the table with that pack in slot 32.\<close>
definition pak_late :: pack_t where
  "pak_late = pak_example\<lparr>filename := ''id1/pak31.pak''\<rparr>"

definition packs_31 :: packs_t where
  "packs_31 = None # replicate 31 (Some pak_example) @ [None]"

definition packs_32 :: packs_t where
  "packs_32 = None # replicate 31 (Some pak_example) @ [Some pak_late]"

text \<open>Two files that begin with the magic of a PAK file: one with \<^verbatim>\<open>dirlen = -1\<close>, one
  with an empty directory.\<close>
definition corrupt_pak :: "byte list" where
  "corrupt_pak = [0x50, 0x41, 0x43, 0x4B, 12, 0, 0, 0, 0xFF, 0xFF, 0xFF, 0xFF]"

definition corrupt_header :: dpackheader_t where
  "corrupt_header = \<lparr>id = PACK_magic, dirofs = 12, dirlen = -1\<rparr>"

definition empty_pak :: "byte list" where
  "empty_pak = [0x50, 0x41, 0x43, 0x4B, 12, 0, 0, 0, 0, 0, 0, 0]"

definition empty_header :: dpackheader_t where
  "empty_header = \<lparr>id = PACK_magic, dirofs = 12, dirlen = 0\<rparr>"

definition broken_paks :: "string \<rightharpoonup> byte list" where
  "broken_paks = [''id1/pak8.pak'' \<mapsto> empty_pak, ''id1/pak9.pak'' \<mapsto> corrupt_pak]"

text \<open>The central directory of a PK3 file with two entries of the one-byte name
  \<open>0x82\<close>, the second with bit 11 of its flags set.\<close>
definition pk3_example :: mz_zip_archive where
  "pk3_example =
     \<lparr>m_archive_size = 300, m_total_files = 2,
      m_pIO_opaque = \<lparr>contents = replicate 300 0, fpos = 0\<rparr>,
      m_central_dir =
        [\<lparr>m_file_index = 0, m_bit_flag = 0, m_method = 0, m_comp_size = 10,
          m_uncomp_size = 10, m_local_header_ofs = 0, m_is_directory = False,
          m_is_supported = True, m_filename = [0x82]\<rparr>,
         \<lparr>m_file_index = 1, m_bit_flag = 0x0800, m_method = 0, m_comp_size = 10,
          m_uncomp_size = 10, m_local_header_ofs = 100, m_is_directory = False,
          m_is_supported = True, m_filename = [0x82]\<rparr>]\<rparr>"

text \<open>A zip reader that finds this central directory in every file, and a file system
  with one PK3 file.\<close>
definition names_zip :: "unit miniz" where
  "names_zip = \<lparr>mz_zip_reader_init = (\<lambda>f n. Some pk3_example), tinfl_init = (),
                 tinfl_decompress = (\<lambda>r i ob po so fl. (-1, 0, 0, ob, ()))\<rparr>"

definition names_fs :: "string \<rightharpoonup> byte list" where
  "names_fs = [''id1/pak1.pk3'' \<mapsto> replicate 300 0]"

text \<open>An entry with bit 11 set whose raw name has a NUL byte in the middle, the central
  directory with this entry alone, a zip reader that finds it, and the pack that
  \<^verbatim>\<open>QFS_LoadPK3File\<close> registers for it.\<close>
definition nul_stat :: mz_zip_archive_file_stat where
  "nul_stat =
     \<lparr>m_file_index = 0, m_bit_flag = 0x0800, m_method = 0, m_comp_size = 10,
      m_uncomp_size = 10, m_local_header_ofs = 0, m_is_directory = False,
      m_is_supported = True, m_filename = [0x82, 0x00, 0x41]\<rparr>"

definition pk3_nul_example :: mz_zip_archive where
  "pk3_nul_example =
     \<lparr>m_archive_size = 300, m_total_files = 1,
      m_pIO_opaque = \<lparr>contents = replicate 300 0, fpos = 0\<rparr>,
      m_central_dir = [nul_stat]\<rparr>"

definition nul_zip :: "unit miniz" where
  "nul_zip = \<lparr>mz_zip_reader_init = (\<lambda>f n. Some pk3_nul_example), tinfl_init = (),
               tinfl_decompress = (\<lambda>r i ob po so fl. (-1, 0, 0, ob, ()))\<rparr>"

definition nul_pack :: pack_t where
  "nul_pack =
     \<lparr>handle = \<lparr>contents = replicate 300 0, fpos = 0\<rparr>, filename = ''id1/pak1.pk3'',
      numfiles = 1, files = Some [\<lparr>name = [0x82], filepos = 0, filelen = 10\<rparr>],
      pack_impl_data = Some pk3_nul_example, pakver = 3, open_file = ZIP_Open_fn\<rparr>"

text \<open>A zip reader whose decoder keeps, as its state, the flags of every call; each call
  consumes its input, produces 20 bytes \<open>0x41\<close> and reports the end of the stream.\<close>
definition flag_log_zip :: "(32 word list) miniz" where
  "flag_log_zip =
     \<lparr>mz_zip_reader_init = (\<lambda>f n. None), tinfl_init = [],
      tinfl_decompress = (\<lambda>r inp ob po so fl.
         (TINFL_STATUS_DONE, word_of_nat (length inp), 20,
          take (unat po) ob @ replicate 20 0x41 @ drop (unat po + 20) ob, r @ [fl]))\<rparr>"

text \<open>A PK3 file with one deflated entry: the local file header of 30 bytes, the name of
  one byte and 10 bytes of compressed data. The handle as \<^verbatim>\<open>ZIP_Open\<close> returns it, the
  buffers after the first refill, after the first call of the decoder and after the output
  was handed over, and the handle after a read of 20 bytes.\<close>
definition deflated_archive :: "byte list" where
  "deflated_archive = [0x50, 0x4B, 0x03, 0x04] @ replicate 22 0 @ [1, 0, 0, 0] @ [0x61]
                        @ replicate 10 0x99"

definition deflated_stat :: mz_zip_archive_file_stat where
  "deflated_stat =
     \<lparr>m_file_index = 0, m_bit_flag = 0, m_method = 8, m_comp_size = 10,
      m_uncomp_size = 20, m_local_header_ofs = 0, m_is_directory = False,
      m_is_supported = True, m_filename = [0x61]\<rparr>"

definition deflated_reader :: "nat \<Rightarrow> mz_zip_archive" where
  "deflated_reader pos =
     \<lparr>m_archive_size = 41, m_total_files = 1,
      m_pIO_opaque = \<lparr>contents = deflated_archive, fpos = pos\<rparr>,
      m_central_dir = [deflated_stat]\<rparr>"

definition deflated_pack :: "nat \<Rightarrow> pack_t" where
  "deflated_pack pos =
     \<lparr>handle = \<lparr>contents = deflated_archive, fpos = 0\<rparr>,
      filename = ''id1/pak1.pk3'', numfiles = 1,
      files = Some [\<lparr>name = [0x61], filepos = 0, filelen = 20\<rparr>],
      pack_impl_data = Some (deflated_reader pos),
      pakver = 3, open_file = ZIP_Open_fn\<rparr>"

definition deflated_buffers :: "(32 word list) inflbuffers_t" where
  "deflated_buffers =
     \<lparr>inbuf = replicate 10 0, outbuf = replicate 65536 0, foffs_in = 0, foffs_out = 0,
      bsz_in = 10, bsz_out = 65536, readsz_in = 0, p_out = 0, p_in = 0, out_read_ptr = 0,
      eof_flag = False, stat = deflated_stat, infl = []\<rparr>"

definition deflated_opened :: "(32 word list) qfshandle_t" where
  "deflated_opened =
     \<lparr>data = Data_pack (deflated_pack 30),
      impl_data = Some deflated_buffers, fileno = 0,
      owns_data = False, from_pak = False, offs = 0, pak_offset = 31, start = 0, endtrim = 0,
      filesize = PAK_FileSize_fn, read = ZIP_Read_fn, close = ZIP_Close_fn, seek = ZIP_Seek_fn\<rparr>"

definition deflated_refilled :: "(32 word list) inflbuffers_t" where
  "deflated_refilled =
     deflated_buffers\<lparr>inbuf := replicate 10 0x99, readsz_in := 10, foffs_in := 10\<rparr>"

definition deflated_inflated :: "(32 word list) inflbuffers_t" where
  "deflated_inflated =
     deflated_refilled\<lparr>p_in := 10, p_out := 20, foffs_out := 20, eof_flag := True,
        outbuf := replicate 20 0x41 @ replicate 65516 0,
        infl := [TINFL_FLAG_HAS_MORE_INPUT]\<rparr>"

definition deflated_drained :: "(32 word list) inflbuffers_t" where
  "deflated_drained = deflated_inflated\<lparr>p_out := 0\<rparr>"

definition deflated_after_read :: "(32 word list) qfshandle_t" where
  "deflated_after_read =
     deflated_opened\<lparr>data := Data_pack (deflated_pack 41),
                      impl_data := Some deflated_drained, offs := 20\<rparr>"

section \<open>Evaluation of the front end on the concrete handles\<close>

lemmas front_end_defs =
  QFS_IgnoreBytes_def QFS_IgnoreBytes_trim_def QFS_Seek_def QFS_Seek_actual_pos_def
  QFS_Tell_def QFS_FileSize_def QFS_ReadFile_def QFS_Eof_def
  call_filesize_def call_seek_def call_read_def
  SEEK_SET_def SEEK_END_def SEEK_CUR_def

lemmas loose_defs =
  FS_Open_def fopen_def QFS_AllocHandle_def FS_FileSize_def Sys_filelength_def FS_Seek_def
  Sys_fseek_def FS_Read_def QFS_CheckHandle_def fread_def offs_add_def
  trailer_fs_def trailer_file_def loose_opened_def loose_trimmed_def loose_at_end_def
  loose_after_read_def

lemmas pak_defs =
  PAK_Open_def fopen_def QFS_AllocHandle_def PAK_FileSize_def PAK_Seek_def PAK_Read_def
  Sys_fseek_def QFS_CheckHandle_def fread_def offs_add_def
  pak_example_def pak_opened_def pak_cut_def

lemma loose_opened_by_FS_Open: "FS_Open trailer_fs ''id1/track.wav'' = Some loose_opened"
  by (simp add: loose_defs)

lemma loose_trimmed_by_QFS_IgnoreBytes:
  "QFS_IgnoreBytes no_zip (Some loose_opened) 128 SEEK_END = Some (Inr (True, Some loose_trimmed))"
  by (simp add: front_end_defs loose_defs)

lemma loose_at_end_by_QFS_Seek:
  "QFS_Seek no_zip (Some loose_trimmed) 0 SEEK_END = Some (Inr (0, Some loose_at_end))"
  by (simp add: front_end_defs loose_defs)

lemma pak_opened_by_PAK_Open: "PAK_Open Map.empty pak_example 0 False = Inr pak_opened"
  by (simp add: pak_defs)

lemma pak_cut_by_QFS_IgnoreBytes:
  "QFS_IgnoreBytes no_zip (Some pak_opened) 100 SEEK_SET = Some (Inr (True, Some pak_cut))"
  by (simp add: front_end_defs pak_defs)

section \<open>Reading\<close>

text \<open>
  Claim C1. \<^verbatim>\<open>QFS_ReadFile\<close> is claimed to clamp the count so that the read never passes
  the visible end, to return a count between 0 and the requested one, and to return 0 for
  any read of at least one byte at the visible end. The clamp of the source replaces the
  count by \<^verbatim>\<open>filesize - endtrim\<close>, the distance of the visible end from the start of the
  file, not from the position. On the loose file of 1000 bytes with a trailer of 128
  bytes hidden, positioned at the visible end by \<^verbatim>\<open>QFS_Seek (h, 0, SEEK_END)\<close> (position
  and visible size are both 872), a read of one byte is turned into a read of 872 bytes: it
  returns 128, delivers the 128 hidden trailer bytes and leaves the position at 1000.
\<close>
theorem QFS_ReadFile_at_visible_end_reads_trailer:
  "QFS_Tell (Some loose_at_end) = 872 \<and>
   QFS_FileSize (Some loose_at_end) = 872 \<and>
   QFS_ReadFile no_zip (Some loose_at_end) 1
     = Some (Inr (128, replicate 128 2, Some loose_after_read)) \<and>
   QFS_Tell (Some loose_after_read) = 1000"
  by (simp add: front_end_defs loose_defs)

section \<open>End of file\<close>

text \<open>
  Claim C4. \<^verbatim>\<open>QFS_Eof\<close> is claimed to be true exactly when the position has reached the
  visible size. The test of the source, \<^verbatim>\<open>offs - endtrim >= filesize - start\<close>, subtracts the
  hidden trailer from the position instead of from the size. On the same handle, whose
  position 872 equals its visible size \<open>1000 - 0 - 128\<close>, \<^verbatim>\<open>QFS_Eof\<close> is false.
\<close>
theorem QFS_Eof_false_at_visible_end:
  "offs loose_at_end = 872 \<and>
   call_filesize loose_at_end - start loose_at_end - endtrim loose_at_end = 872 \<and>
   QFS_Tell (Some loose_at_end) = QFS_FileSize (Some loose_at_end) \<and>
   QFS_Eof (Some loose_at_end) = False"
  by (simp add: front_end_defs loose_defs)

section \<open>Seeking\<close>

text \<open>
  Claim C2. \<^verbatim>\<open>QFS_Seek\<close> is claimed to fail exactly when the target lies outside
  \<open>[start, raw_size - endtrim]\<close>. The targets are computed as claimed, but the test of the
  source compares the target with \<^verbatim>\<open>filesize - (start + endtrim)\<close>. On the PAK entry of
  1000 bytes with the first 100 hidden (visible size 900, position 0), seeking to the end,
  by \<^verbatim>\<open>SEEK_END\<close> with offset 0 or by \<^verbatim>\<open>SEEK_SET\<close> with the visible size, has the target
  1000, inside \<open>[100, 1000]\<close>; both calls return -1 and leave the handle as it was.
\<close>
theorem QFS_Seek_to_end_fails_with_hidden_start:
  "QFS_Tell (Some pak_cut) = 0 \<and>
   QFS_FileSize (Some pak_cut) = 900 \<and>
   QFS_Seek_actual_pos pak_cut 0 SEEK_END = Some 1000 \<and>
   QFS_Seek_actual_pos pak_cut 900 SEEK_SET = Some 1000 \<and>
   start pak_cut \<le> 1000 \<and> 1000 \<le> call_filesize pak_cut - endtrim pak_cut \<and>
   QFS_Seek no_zip (Some pak_cut) 0 SEEK_END = Some (Inr (-1, Some pak_cut)) \<and>
   QFS_Seek no_zip (Some pak_cut) 900 SEEK_SET = Some (Inr (-1, Some pak_cut))"
  by (simp add: front_end_defs pak_defs)

text \<open>
  Claim C10. Whenever \<^verbatim>\<open>QFS_Seek\<close> rejects a request before it calls the backend (the
  handle is \<^verbatim>\<open>NULL\<close>, \<^verbatim>\<open>whence\<close> is none of \<^verbatim>\<open>SEEK_SET\<close>, \<^verbatim>\<open>SEEK_CUR\<close>, \<^verbatim>\<open>SEEK_END\<close>, or the
  target fails the range test of the source), it returns -1 and the handle, with its
  \<^verbatim>\<open>offs\<close>, \<^verbatim>\<open>start\<close> and \<^verbatim>\<open>endtrim\<close>, is as before. This holds for every backend and every
  zip reader.
\<close>
theorem QFS_Seek_rejection_keeps_handle:
  assumes "hp = None
     \<or> (whence \<noteq> SEEK_SET \<and> whence \<noteq> SEEK_CUR \<and> whence \<noteq> SEEK_END)
     \<or> (\<exists>h pos. hp = Some h \<and> QFS_Seek_actual_pos h ofs whence = Some pos
           \<and> (pos < start h \<or> pos > call_filesize h - (start h + endtrim h)))"
  shows "QFS_Seek mz hp ofs whence = Some (Inr (-1, hp))"
proof (cases hp)
  case None
  then show ?thesis by (simp add: QFS_Seek_def)
next
  case (Some h)
  show ?thesis
  proof (cases "QFS_Seek_actual_pos h ofs whence")
    case None
    with Some show ?thesis by (simp add: QFS_Seek_def)
  next
    case pos: (Some pos)
    from assms Some pos
    have "pos < start h \<or> pos > call_filesize h - (start h + endtrim h)"
      by (auto simp: QFS_Seek_actual_pos_def)
    with Some pos show ?thesis by (simp add: QFS_Seek_def)
  qed
qed

theorem QFS_Seek_rejection_keeps_handle_witness:
  "QFS_Seek no_zip None 0 SEEK_SET = Some (Inr (-1, None)) \<and>
   QFS_Seek no_zip (Some loose_opened) 0 7 = Some (Inr (-1, Some loose_opened)) \<and>
   QFS_Seek_actual_pos loose_opened 1001 SEEK_SET = Some 1001 \<and>
   1001 > call_filesize loose_opened - (start loose_opened + endtrim loose_opened) \<and>
   QFS_Seek no_zip (Some loose_opened) 1001 SEEK_SET = Some (Inr (-1, Some loose_opened)) \<and>
   QFS_Seek_actual_pos loose_opened (-1) SEEK_CUR = Some (-1) \<and>
   -1 < start loose_opened \<and>
   QFS_Seek no_zip (Some loose_opened) (-1) SEEK_CUR = Some (Inr (-1, Some loose_opened))"
proof -
  have a: "QFS_Seek_actual_pos loose_opened 1001 SEEK_SET = Some 1001"
    and b: "1001 > call_filesize loose_opened - (start loose_opened + endtrim loose_opened)"
    and c: "QFS_Seek_actual_pos loose_opened (-1) SEEK_CUR = Some (-1)"
    and d: "-1 < start loose_opened"
    and e: "(7::int) \<noteq> SEEK_SET \<and> 7 \<noteq> SEEK_CUR \<and> 7 \<noteq> SEEK_END"
    by (simp_all add: front_end_defs loose_defs)
  from QFS_Seek_rejection_keeps_handle [of None SEEK_SET 0 no_zip]
  have 1: "QFS_Seek no_zip None 0 SEEK_SET = Some (Inr (-1, None))" by simp
  from e QFS_Seek_rejection_keeps_handle [of "Some loose_opened" 7 0 no_zip]
  have 2: "QFS_Seek no_zip (Some loose_opened) 0 7 = Some (Inr (-1, Some loose_opened))" by simp
  from a b QFS_Seek_rejection_keeps_handle [of "Some loose_opened" SEEK_SET 1001 no_zip]
  have 3: "QFS_Seek no_zip (Some loose_opened) 1001 SEEK_SET = Some (Inr (-1, Some loose_opened))"
    by simp
  from c d QFS_Seek_rejection_keeps_handle [of "Some loose_opened" SEEK_CUR "-1" no_zip]
  have 4: "QFS_Seek no_zip (Some loose_opened) (-1) SEEK_CUR = Some (Inr (-1, Some loose_opened))"
    by simp
  from 1 2 3 4 a b c d show ?thesis by simp
qed

section \<open>Hiding bytes\<close>

text \<open>
  Claim C5. \<^verbatim>\<open>QFS_IgnoreBytes\<close> with \<^verbatim>\<open>SEEK_SET\<close> and 0 is claimed to reset both
  \<^verbatim>\<open>start\<close> and \<^verbatim>\<open>endtrim\<close>, and every call is claimed to move a position outside the
  new window to the nearest boundary of the window. In the source the first test of the
  chain, \<^verbatim>\<open>whence == SEEK_SET && cut <= filesize - endtrim\<close>, already holds for the cut 0,
  so that the branch that resets both is not reached: on the loose file with a trailer of
  128 bytes hidden the call leaves \<^verbatim>\<open>endtrim\<close> at 128 and the visible size at 872. The
  second test for the position compares it with \<^verbatim>\<open>start - endtrim\<close> and seeks to
  \<^verbatim>\<open>filesize - start - endtrim\<close>: on the PAK entry with the first 100 bytes hidden and the
  position 900, hiding the last 200 bytes gives the window \<open>[100, 800]\<close> and moves the
  position to 700.
\<close>
theorem QFS_IgnoreBytes_SET_0_keeps_endtrim:
  "QFS_IgnoreBytes no_zip (Some loose_trimmed) 0 SEEK_SET
     = Some (Inr (True, Some loose_trimmed)) \<and>
   endtrim loose_trimmed = 128 \<and>
   QFS_FileSize (Some loose_trimmed) = 872 \<and>
   QFS_Seek no_zip (Some pak_cut) 800 SEEK_SET = Some (Inr (0, Some (pak_cut\<lparr>offs := 900\<rparr>))) \<and>
   QFS_IgnoreBytes no_zip (Some (pak_cut\<lparr>offs := 900\<rparr>)) 200 SEEK_END
     = Some (Inr (True, Some (pak_cut\<lparr>offs := 700, endtrim := 200\<rparr>)))"
  by (simp add: front_end_defs loose_defs pak_defs)

section \<open>The \<^verbatim>\<open>NULL\<close> handle\<close>

text \<open>
  Claim C9. Every operation of the front end is total on a \<^verbatim>\<open>NULL\<close> handle and yields its
  failure value: \<^verbatim>\<open>QFS_ReadFile\<close> returns 0 (and delivers nothing), \<^verbatim>\<open>QFS_Seek\<close> returns -1,
  \<^verbatim>\<open>QFS_Tell\<close> and \<^verbatim>\<open>QFS_FileSize\<close> return 0, \<^verbatim>\<open>QFS_Eof\<close> is true, \<^verbatim>\<open>QFS_CloseFile\<close> releases
  nothing and \<^verbatim>\<open>QFS_IgnoreBytes\<close> returns false. None of them reaches a fatal error or a
  backend.
\<close>
theorem QFS_NULL_handle:
  "QFS_ReadFile mz None n = Some (Inr (0, [], None)) \<and>
   QFS_Seek mz None ofs whence = Some (Inr (-1, None)) \<and>
   QFS_Tell None = 0 \<and>
   QFS_FileSize None = 0 \<and>
   QFS_Eof None = True \<and>
   QFS_CloseFile None = [] \<and>
   QFS_IgnoreBytes mz None cutn whence = Some (Inr (False, None))"
  by (simp add: QFS_ReadFile_def QFS_Seek_def QFS_Tell_def QFS_FileSize_def QFS_Eof_def
      QFS_CloseFile_def QFS_IgnoreBytes_def)

section \<open>The table of loaded packs: registration and lookup\<close>

text \<open>Registration takes the first free slot from 1 on, and reports a full table by 0,
  releasing the pack with a warning.\<close>
lemma QFS_RegisterPack_loop_first_free:
  assumes "i \<le> k" "k < countof_packs" "packs ! k = None"
      and "\<forall>j. i \<le> j \<and> j < k \<longrightarrow> packs ! j \<noteq> None"
  shows "QFS_RegisterPack_loop packs pack i = (int k, packs[k := Some pack], [])"
  using assms
proof (induction "k - i" arbitrary: i)
  case 0
  then have "i = k" by simp
  with 0 show ?case by (simp add: QFS_RegisterPack_loop.simps [of packs pack k])
next
  case (Suc d)
  then have lt: "i < k" by simp
  with Suc.prems have ne: "packs ! i \<noteq> None" by simp
  have "QFS_RegisterPack_loop packs pack (i + 1) = (int k, packs[k := Some pack], [])"
    using Suc lt by (intro Suc.hyps) auto
  with ne lt Suc.prems show ?case
    by (subst QFS_RegisterPack_loop.simps) simp
qed

lemma QFS_RegisterPack_loop_full:
  assumes "i \<le> countof_packs"
      and "\<forall>j. i \<le> j \<and> j < countof_packs \<longrightarrow> packs ! j \<noteq> None"
  shows "QFS_RegisterPack_loop packs pack i
           = (0, packs, QFS_FreePackHandle (Some pack) @ [Printf ''WARNING: Too many pack files loaded.''])"
  using assms
proof (induction "countof_packs - i" arbitrary: i)
  case 0
  then show ?case by (simp add: QFS_RegisterPack_loop.simps [of packs pack i])
next
  case (Suc d)
  then have lt: "i < countof_packs" by simp
  with Suc.prems have ne: "packs ! i \<noteq> None" by simp
  have "QFS_RegisterPack_loop packs pack (i + 1)
           = (0, packs, QFS_FreePackHandle (Some pack) @ [Printf ''WARNING: Too many pack files loaded.''])"
    using Suc lt by (intro Suc.hyps) auto
  with ne lt show ?case
    by (subst QFS_RegisterPack_loop.simps) simp
qed

text \<open>Lookup finds a registered pack in the slots below \<^verbatim>\<open>MAX_PACK_FILES\<close>.\<close>
lemma QFS_GetPack_registered:
  assumes "0 < k" "k < MAX_PACK_FILES" "k < length packs"
  shows "QFS_GetPack (packs[k := Some pack]) (int k) False = (Some pack, packs[k := Some pack])"
  using assms by (simp add: QFS_GetPack_def)

text \<open>
  Claim C3. Registration is claimed to return the first free index in 1..32, and every
  id it returns is claimed to find the registered pack until the pack is freed.
  Registration is as claimed, but \<^verbatim>\<open>QFS_GetPack\<close> accepts an id only when
  \<^verbatim>\<open>num < MAX_PACK_FILES\<close>, that is up to 31, while the table has the slots 1..32. With
  the slots 1..31 taken, the next pack is registered under the id 32 and no lookup finds
  it: \<^verbatim>\<open>QFS_PackInfoName\<close> is \<^verbatim>\<open>NULL\<close>, \<^verbatim>\<open>QFS_PackInfoNumFiles\<close> is 0, \<^verbatim>\<open>QFS_FindFile\<close> on a
  search path with that id ends in \<^verbatim>\<open>Sys_Error\<close>, and \<^verbatim>\<open>QFS_FreePack\<close> releases nothing. The
  id 31 is found.
\<close>
theorem QFS_GetPack_misses_slot_32:
  "QFS_RegisterPack packs_31 pak_late = (32, packs_32, []) \<and>
   QFS_GetPack packs_32 32 False = (None, packs_32) \<and>
   QFS_PackInfoName packs_32 32 = None \<and>
   QFS_PackInfoNumFiles packs_32 32 = 0 \<and>
   QFS_FindFile no_zip Map.empty packs_32 True
       [\<lparr>path_id = 1, sp_filename = [], sp_pack = 32\<rparr>] [0x61] True False
     = Inl (Sys_Error ''QFS_FindFile: invalid pack id.'') \<and>
   QFS_FreePack packs_32 32 = (packs_32, []) \<and>
   QFS_PackInfoName packs_32 31 = Some ''id1/pak0.pak''"
proof -
  have "QFS_RegisterPack packs_31 pak_late = (32, packs_32, [])"
    by code_simp
  moreover have "QFS_GetPack packs_32 32 False = (None, packs_32)"
    by (simp add: QFS_GetPack_def MAX_PACK_FILES_def)
  moreover have "QFS_PackInfoName packs_32 31 = Some ''id1/pak0.pak''"
    by (simp add: QFS_PackInfoName_def QFS_GetPack_def MAX_PACK_FILES_def packs_32_def
        nth_append pak_example_def)
  moreover have "QFS_FreePack packs_32 32 = (packs_32, [])"
    by (simp add: QFS_FreePack_def QFS_GetPack_def MAX_PACK_FILES_def QFS_FreePackHandle_def)
  moreover have "QFS_PackInfoName packs_32 32 = None \<and> QFS_PackInfoNumFiles packs_32 32 = 0"
    by (simp add: QFS_PackInfoName_def QFS_PackInfoNumFiles_def QFS_GetPack_def
        MAX_PACK_FILES_def)
  moreover have "QFS_FindFile no_zip Map.empty packs_32 True
       [\<lparr>path_id = 1, sp_filename = [], sp_pack = 32\<rparr>] [0x61] True False
     = Inl (Sys_Error ''QFS_FindFile: invalid pack id.'')"
    by (simp add: QFS_GetPack_def MAX_PACK_FILES_def)
  ultimately show ?thesis
    by blast
qed

section \<open>Loading a PAK file: the rejections\<close>

text \<open>For a directory length that is not negative the number of files is the length
  divided by the size of a record.\<close>
lemma numfiles_nonneg:
  assumes "0 \<le> sint (dirlen h)"
  shows "sint (pak_numpackfiles h) = sint (dirlen h) div 64"
proof -
  define k where "k = sint (dirlen h)"
  define q where "q = (word_of_int k :: 64 word) div 64"
  have k0: "0 \<le> k" using assms by (simp add: k_def)
  have k31: "k < 2 ^ 31" using sint_lt [of "dirlen h"] by (simp add: k_def)
  have a: "uint (word_of_int k :: 64 word) = k"
    using k0 k31 by (simp add: uint_word_of_int)
  have "uint q = uint (word_of_int k :: 64 word) div uint (64 :: 64 word)"
    unfolding q_def by (rule uint_div_distrib)
  then have b: "uint q = k div 64"
    by (simp add: a)
  have q_lo: "0 \<le> k div 64" using k0 by simp
  have q_hi: "k div 64 < 2 ^ 31" using k0 k31 by simp
  have c: "uint (ucast q :: 32 word) = k div 64"
    using q_lo q_hi by (simp add: unsigned_ucast_eq b take_bit_int_eq_self)
  have d: "sint (ucast q :: 32 word) = k div 64"
    using q_lo q_hi by (simp add: sint_uint c signed_take_bit_int_eq_self)
  have "pak_numpackfiles h = ucast q"
    by (simp add: pak_numpackfiles_def sizeof_dpackfile_t_def q_def k_def)
  with d show ?thesis by (simp add: k_def)
qed

text \<open>
  Claim C6. For a file that could be opened, \<^verbatim>\<open>QFS_LoadPAKFile\<close> ends in \<^verbatim>\<open>Sys_Error\<close> when
  the header is short or its magic is wrong, when \<^verbatim>\<open>dirlen\<close> or \<^verbatim>\<open>dirofs\<close> is negative, and
  when there are more than 2048 files; it returns 0 with a warning, the table unchanged
  and the file closed, when there are no files. A file that begins with \<^verbatim>\<open>PACK\<close> and has
  \<^verbatim>\<open>dirlen = -1\<close> ends in \<^verbatim>\<open>Sys_Error\<close>, returning no pack id: the test of the lengths
  stands before the test of the number of files.
\<close>
theorem QFS_LoadPAKFile_rejections:
  assumes "fopen fs packfile = Some f"
  shows "(fst (read_dpackheader f) = None \<longrightarrow>
            QFS_LoadPAKFile fs packs packfile
              = Inl (Sys_Error (packfile @ '' is not a packfile''))) \<and>
         (\<forall>h. fst (read_dpackheader f) = Some h \<longrightarrow>
            (id h \<noteq> PACK_magic \<longrightarrow>
               QFS_LoadPAKFile fs packs packfile
                 = Inl (Sys_Error (packfile @ '' is not a packfile''))) \<and>
            (id h = PACK_magic \<and> (sint (dirlen h) < 0 \<or> sint (dirofs h) < 0) \<longrightarrow>
               QFS_LoadPAKFile fs packs packfile
                 = Inl (Sys_Error (''Invalid packfile '' @ packfile))) \<and>
            (id h = PACK_magic \<and> 0 \<le> sint (dirlen h) \<and> 0 \<le> sint (dirofs h)
               \<and> sint (dirlen h) div 64 = 0 \<longrightarrow>
               QFS_LoadPAKFile fs packs packfile
                 = Inr (0, packs,
                        [Printf (''WARNING: '' @ packfile @ '' has no files, ignored''), Fclose])) \<and>
            (id h = PACK_magic \<and> 0 \<le> sint (dirlen h) \<and> 0 \<le> sint (dirofs h)
               \<and> sint (dirlen h) div 64 > MAX_FILES_IN_PACK \<longrightarrow>
               QFS_LoadPAKFile fs packs packfile
                 = Inl (Sys_Error (packfile @ '' has too many files''))) \<and>
            (id h = PACK_magic \<and> dirlen h = -1 \<longrightarrow>
               QFS_LoadPAKFile fs packs packfile
                 = Inl (Sys_Error (''Invalid packfile '' @ packfile))))"
proof -
  have zero: "pak_numpackfiles h = 0" if "0 \<le> sint (dirlen h)" "sint (dirlen h) div 64 = 0" for h
  proof -
    from that have "sint (pak_numpackfiles h) = sint (0 :: c_int)"
      by (simp add: numfiles_nonneg)
    then show ?thesis by (rule signed_word_eqI)
  qed
  have many: "sint (pak_numpackfiles h) > MAX_FILES_IN_PACK \<and> pak_numpackfiles h \<noteq> 0"
    if "0 \<le> sint (dirlen h)" "sint (dirlen h) div 64 > MAX_FILES_IN_PACK" for h
  proof -
    from that have gt: "sint (pak_numpackfiles h) > MAX_FILES_IN_PACK"
      by (simp add: numfiles_nonneg)
    then have "sint (pak_numpackfiles h) \<noteq> sint (0 :: c_int)"
      by (simp add: MAX_FILES_IN_PACK_def)
    then have "pak_numpackfiles h \<noteq> 0" by metis
    with gt show ?thesis by simp
  qed
  show ?thesis
    using assms zero many
    by (cases "read_dpackheader f")
       (auto simp: QFS_LoadPAKFile_def Let_def split: option.splits)
qed

theorem QFS_LoadPAKFile_rejections_witness:
  "fopen broken_paks ''id1/pak9.pak'' = Some \<lparr>contents = corrupt_pak, fpos = 0\<rparr> \<and>
   fst (read_dpackheader \<lparr>contents = corrupt_pak, fpos = 0\<rparr>) = Some corrupt_header \<and>
   id corrupt_header = PACK_magic \<and> dirlen corrupt_header = -1 \<and>
   sint (dirlen corrupt_header) < 0 \<and>
   QFS_LoadPAKFile broken_paks packs_initial ''id1/pak9.pak''
     = Inl (Sys_Error ''Invalid packfile id1/pak9.pak'') \<and>
   fopen broken_paks ''id1/pak8.pak'' = Some \<lparr>contents = empty_pak, fpos = 0\<rparr> \<and>
   fst (read_dpackheader \<lparr>contents = empty_pak, fpos = 0\<rparr>) = Some empty_header \<and>
   id empty_header = PACK_magic \<and> sint (dirlen empty_header) div 64 = 0 \<and>
   QFS_LoadPAKFile broken_paks packs_initial ''id1/pak8.pak''
     = Inr (0, packs_initial,
            [Printf ''WARNING: id1/pak8.pak has no files, ignored'', Fclose])"
proof -
  have o9: "fopen broken_paks ''id1/pak9.pak'' = Some \<lparr>contents = corrupt_pak, fpos = 0\<rparr>"
    and o8: "fopen broken_paks ''id1/pak8.pak'' = Some \<lparr>contents = empty_pak, fpos = 0\<rparr>"
    by (simp_all add: fopen_def broken_paks_def)
  have h9: "fst (read_dpackheader \<lparr>contents = corrupt_pak, fpos = 0\<rparr>) = Some corrupt_header"
    and h8: "fst (read_dpackheader \<lparr>contents = empty_pak, fpos = 0\<rparr>) = Some empty_header"
    by (simp_all add: read_dpackheader_def fread_def sizeof_dpackheader_t_def corrupt_pak_def
        empty_pak_def le32_def corrupt_header_def empty_header_def PACK_magic_def Let_def)
  have f9: "id corrupt_header = PACK_magic" "dirlen corrupt_header = -1"
    "sint (dirlen corrupt_header) < 0"
    and f8: "id empty_header = PACK_magic" "sint (dirlen empty_header) div 64 = 0"
    "0 \<le> sint (dirlen empty_header)" "0 \<le> sint (dirofs empty_header)"
    by (simp_all add: corrupt_header_def empty_header_def)
  from QFS_LoadPAKFile_rejections [OF o9, of packs_initial] h9 f9
  have r9: "QFS_LoadPAKFile broken_paks packs_initial ''id1/pak9.pak''
              = Inl (Sys_Error ''Invalid packfile id1/pak9.pak'')"
    by simp
  from QFS_LoadPAKFile_rejections [OF o8, of packs_initial] h8 f8
  have r8: "QFS_LoadPAKFile broken_paks packs_initial ''id1/pak8.pak''
              = Inr (0, packs_initial,
                     [Printf ''WARNING: id1/pak8.pak has no files, ignored'', Fclose])"
    by simp
  from o9 o8 h9 h8 f9 f8 r9 r8 show ?thesis by simp
qed

section \<open>Loading a PK3 file: the names of the entries\<close>

lemma c_str_no_NUL: "0 \<notin> set xs \<Longrightarrow> c_str xs = xs"
  unfolding c_str_def by (induction xs) auto

lemma q_strlcpy_short: "0 \<notin> set xs \<Longrightarrow> length xs < siz \<Longrightarrow> q_strlcpy xs siz = xs"
proof -
  assume a: "0 \<notin> set xs" and b: "length xs < siz"
  from c_str_no_NUL [OF a] have tw: "takeWhile (\<lambda>b. b \<noteq> 0) xs = xs"
    unfolding c_str_def .
  show ?thesis unfolding q_strlcpy_def tw using b by simp
qed

lemma length_UTF8_WriteCodePoint:
  "1 \<le> length (UTF8_WriteCodePoint cp) \<and> length (UTF8_WriteCodePoint cp) \<le> 3"
  by (simp add: UTF8_WriteCodePoint_def)

lemma byte_of_nat_nonzero: "0 < n \<Longrightarrow> n < 256 \<Longrightarrow> (0 :: byte) \<noteq> word_of_nat n"
  using word_of_nat_eq_0_iff [where ?'a = 8 and n = n] by (auto simp: dvd_eq_mod_eq_0)

lemma UTF8_WriteCodePoint_no_NUL:
  assumes "0 < cp" "cp < 0x10000"
  shows "0 \<notin> set (UTF8_WriteCodePoint cp)"
proof -
  consider (one) "cp < 0x80" | (two) "\<not> cp < 0x80" "cp < 0x800" | (three) "\<not> cp < 0x80" "\<not> cp < 0x800"
    by blast
  then show ?thesis
  proof cases
    case one
    have e: "UTF8_WriteCodePoint cp = [word_of_nat cp]"
      using one by (simp only: UTF8_WriteCodePoint_def if_True)
    have "(0 :: byte) \<noteq> word_of_nat cp"
      by (rule byte_of_nat_nonzero) (use assms one in simp_all)
    then show ?thesis by (simp only: e list.set insert_iff empty_iff simp_thms)
  next
    case two
    have e: "UTF8_WriteCodePoint cp = [word_of_nat (0xC0 + cp div 64), word_of_nat (0x80 + cp mod 64)]"
      using two by (simp only: UTF8_WriteCodePoint_def if_True if_False)
    have "cp div 64 < 32" using two by simp
    then have "(0 :: byte) \<noteq> word_of_nat (0xC0 + cp div 64)"
      by (intro byte_of_nat_nonzero) simp_all
    moreover have "(0 :: byte) \<noteq> word_of_nat (0x80 + cp mod 64)"
      by (intro byte_of_nat_nonzero) simp_all
    ultimately show ?thesis by (simp only: e list.set insert_iff empty_iff simp_thms)
  next
    case three
    have e: "UTF8_WriteCodePoint cp = [word_of_nat (0xE0 + cp div 4096),
        word_of_nat (0x80 + (cp div 64) mod 64), word_of_nat (0x80 + cp mod 64)]"
      using three by (simp only: UTF8_WriteCodePoint_def if_True if_False)
    have "cp div 4096 < 16" using assms by simp
    then have "(0 :: byte) \<noteq> word_of_nat (0xE0 + cp div 4096)"
      by (intro byte_of_nat_nonzero) simp_all
    moreover have "(0 :: byte) \<noteq> word_of_nat (0x80 + (cp div 64) mod 64)"
      by (intro byte_of_nat_nonzero) simp_all
    moreover have "(0 :: byte) \<noteq> word_of_nat (0x80 + cp mod 64)"
      by (intro byte_of_nat_nonzero) simp_all
    ultimately show ?thesis by (simp only: e list.set insert_iff empty_iff simp_thms)
  qed
qed

lemma cp437_high_range: "list_all (\<lambda>x. 0 < x \<and> x < 0x10000) cp437_high"
  by (simp add: cp437_high_def)

lemma length_cp437_high: "length cp437_high = 128"
  by (simp add: cp437_high_def)

lemma cp437_to_unicode_range:
  assumes "b \<noteq> 0"
  shows "0 < cp437_to_unicode b \<and> cp437_to_unicode b < 0x10000"
proof (cases "b < 0x80")
  case True
  have "unat b < 128" using True by (simp add: word_less_nat_alt)
  moreover have "0 < unat b" using assms by (simp add: unat_gt_0)
  ultimately show ?thesis using True by (simp add: cp437_to_unicode_def)
next
  case False
  have "unat b < 256" using unsigned_less [of b, where ?'a = nat] by simp
  then have "unat b - 128 < length cp437_high" by (simp add: length_cp437_high)
  with cp437_high_range
  have "0 < cp437_high ! (unat b - 128) \<and> cp437_high ! (unat b - 128) < 0x10000"
    by (simp only: list_all_length)
  then show ?thesis using False by (simp add: cp437_to_unicode_def)
qed

lemma UTF8_FromIBM437_no_NUL:
  assumes "0 \<notin> set xs"
  shows "0 \<notin> set (fst (UTF8_FromIBM437 xs))"
proof -
  have "0 \<notin> set (UTF8_WriteCodePoint (cp437_to_unicode b))" if "b \<in> set xs" for b
  proof -
    from that assms have "b \<noteq> 0" by metis
    then have "0 < cp437_to_unicode b \<and> cp437_to_unicode b < 0x10000"
      by (rule cp437_to_unicode_range)
    then show ?thesis by (simp add: UTF8_WriteCodePoint_no_NUL)
  qed
  then show ?thesis
    using assms by (simp add: UTF8_FromIBM437_def Let_def c_str_no_NUL)
qed

lemma length_concat_ge:
  "(\<And>x. x \<in> set xs \<Longrightarrow> g x \<noteq> []) \<Longrightarrow> length xs \<le> length (concat (map g xs))"
proof (induction xs)
  case Nil
  then show ?case by simp
next
  case (Cons a xs)
  have "g a \<noteq> []" using Cons.prems by simp
  then have "0 < length (g a)" by simp
  moreover have "length xs \<le> length (concat (map g xs))"
    using Cons by simp
  moreover have "length (concat (map g (a # xs))) = length (g a) + length (concat (map g xs))"
    by simp
  ultimately show ?case unfolding length_Cons by linarith
qed

lemma length_concat_le:
  "(\<And>x. x \<in> set xs \<Longrightarrow> length (g x) \<le> 3) \<Longrightarrow> length (concat (map g xs)) \<le> 3 * length xs"
proof (induction xs)
  case Nil
  then show ?case by simp
next
  case (Cons a xs)
  have "length (g a) \<le> 3" using Cons.prems by simp
  moreover have "length (concat (map g xs)) \<le> 3 * length xs"
    using Cons by simp
  ultimately show ?case by simp
qed

lemma length_UTF8_FromIBM437:
  "length (c_str xs) \<le> length (fst (UTF8_FromIBM437 xs)) \<and>
   length (fst (UTF8_FromIBM437 xs)) \<le> 3 * length (c_str xs)"
proof -
  have ne: "UTF8_WriteCodePoint cp \<noteq> []" for cp
    by (simp add: UTF8_WriteCodePoint_def)
  have le: "length (UTF8_WriteCodePoint cp) \<le> 3" for cp
    by (simp add: UTF8_WriteCodePoint_def)
  show ?thesis
    using length_concat_ge [of "c_str xs" "\<lambda>b. UTF8_WriteCodePoint (cp437_to_unicode b)"]
          length_concat_le [of "c_str xs" "\<lambda>b. UTF8_WriteCodePoint (cp437_to_unicode b)"]
    by (simp add: UTF8_FromIBM437_def Let_def ne le)
qed


lemma size_t_of_nat_le:
  "k < 2 ^ 64 \<Longrightarrow> m < 2 ^ 64 \<Longrightarrow> ((word_of_nat k :: size_t) \<le> word_of_nat m) = (k \<le> m)"
  by (simp add: word_le_nat_alt unat_of_nat)

text \<open>The body of the loop as one equation: what ends in \<^verbatim>\<open>Sys_Error\<close>, what is skipped
  and what is stored.\<close>
lemma QFS_LoadPK3File_entry_eq:
  assumes st: "mz_zip_reader_file_stat pk3 i = Some st"
  defines "buf \<equiv> take (min (length (m_filename st)) 511) (m_filename st)"
  defines "conv \<equiv> fst (UTF8_FromIBM437 buf)"
  shows "QFS_LoadPK3File_entry packfile pk3 i =
     (if m_is_directory st then Inr None
      else if m_uncomp_size st > INT_MAX
      then Inl (Sys_Error (''File in '' @ packfile @ '' is too large.''))
      else if (m_bit_flag st AND push_bit 11 1) = 0 \<and> \<not> q_strascii buf
      then (if 64 \<le> length conv + 1
            then Inl (Sys_Error (''File name in '' @ packfile
                                  @ '' exceeds maximum allowed length.''))
            else Inr (Some \<lparr>name = q_strlcpy conv 64, filepos = ucast (m_file_index st),
                             filelen = ucast (m_uncomp_size st)\<rparr>))
      else (if 64 \<le> length buf + 1
            then Inl (Sys_Error (''File name in '' @ packfile
                                  @ '' exceeds maximum allowed length.''))
            else Inr (Some \<lparr>name = q_strlcpy buf 64, filepos = ucast (m_file_index st),
                             filelen = ucast (m_uncomp_size st)\<rparr>)))"
proof -
  have lb: "length buf \<le> 511" by (simp add: buf_def)
  have lc: "length conv \<le> 3 * 511"
    using length_UTF8_FromIBM437 [of buf] lb
      length_takeWhile_le [of "\<lambda>b. b \<noteq> 0" buf]
    by (simp add: conv_def c_str_def)
  define lenb :: size_t where "lenb = word_of_nat (length buf + 1)"
  define lenc :: size_t where "lenc = word_of_nat (length conv + 1)"
  have gf: "mz_zip_reader_get_filename st 512 = (buf, lenb)"
    by (simp add: mz_zip_reader_get_filename_def buf_def Let_def min_def lenb_def)
  have uf: "UTF8_FromIBM437 buf = (conv, lenc)"
    by (simp add: UTF8_FromIBM437_def conv_def Let_def lenc_def)
  have c1: "(64 \<le> lenb) = (64 \<le> length buf + 1)"
    unfolding lenb_def using size_t_of_nat_le [of 64 "length buf + 1"] lb by simp
  have c2: "(64 \<le> lenc) = (64 \<le> length conv + 1)"
    unfolding lenc_def using size_t_of_nat_le [of 64 "length conv + 1"] lc by simp
  have c3: "(lenc \<le> 512) = (length conv + 1 \<le> 512)"
    unfolding lenc_def using size_t_of_nat_le [of "length conv + 1" 512] lc by simp
  show ?thesis
    by (simp add: QFS_LoadPK3File_entry_def st gf uf MAX_QPATH_def
          MZ_ZIP_MAX_ARCHIVE_FILENAME_SIZE_def c1 c2 c3)
qed

lemma takeWhile_take: "takeWhile P (take n xs) = take n (takeWhile P xs)"
proof (induction xs arbitrary: n)
  case Nil
  then show ?case by simp
next
  case (Cons x xs)
  then show ?case by (cases n) simp_all
qed

lemma c_str_has_no_NUL: "0 \<notin> set (c_str xs)"
  unfolding c_str_def by (induction xs) auto

lemma c_str_idem: "c_str (c_str xs) = c_str xs"
  by (rule c_str_no_NUL) (rule c_str_has_no_NUL)

lemma UTF8_FromIBM437_c_str: "UTF8_FromIBM437 (c_str xs) = UTF8_FromIBM437 xs"
  by (simp add: UTF8_FromIBM437_def c_str_idem)

lemma UTF8_FromIBM437_has_no_NUL: "0 \<notin> set (fst (UTF8_FromIBM437 xs))"
  using UTF8_FromIBM437_no_NUL [OF c_str_has_no_NUL, of xs]
  by (simp add: UTF8_FromIBM437_c_str)

lemma length_c_str: "length (c_str xs) \<le> length xs"
  unfolding c_str_def by (rule length_takeWhile_le)

lemma q_strlcpy_c_str: "length xs < siz \<Longrightarrow> q_strlcpy xs siz = c_str xs"
proof -
  assume a: "length xs < siz"
  have "length (takeWhile (\<lambda>b. b \<noteq> 0) xs) \<le> length xs" by (rule length_takeWhile_le)
  with a show ?thesis by (simp add: q_strlcpy_def c_str_def)
qed

text \<open>Whatever the body of the loop stores is the entry in the words of the claim, also
  for raw names with NUL bytes and for names longer than the buffer.\<close>
lemma QFS_LoadPK3File_entry_Inr:
  assumes st: "mz_zip_reader_file_stat pk3 i = Some st"
      and res: "QFS_LoadPK3File_entry packfile pk3 i = Inr r"
  shows "r = (if m_is_directory st then None else Some (spec_stored_entry st))"
proof (cases "m_is_directory st")
  case True
  with res show ?thesis by (simp add: QFS_LoadPK3File_entry_eq [OF st])
next
  case False
  define raw where "raw = m_filename st"
  define n where "n = min (length raw) 511"
  define buf where "buf = take n raw"
  define conv where "conv = fst (UTF8_FromIBM437 buf)"
  define tr where "tr \<longleftrightarrow> (m_bit_flag st AND push_bit 11 1) = 0 \<and> \<not> q_strascii buf"
  have eq: "QFS_LoadPK3File_entry packfile pk3 i =
     (if m_uncomp_size st > INT_MAX
      then Inl (Sys_Error (''File in '' @ packfile @ '' is too large.''))
      else if tr
      then (if 64 \<le> length conv + 1
            then Inl (Sys_Error (''File name in '' @ packfile
                                  @ '' exceeds maximum allowed length.''))
            else Inr (Some \<lparr>name = q_strlcpy conv 64, filepos = ucast (m_file_index st),
                             filelen = ucast (m_uncomp_size st)\<rparr>))
      else (if 64 \<le> length buf + 1
            then Inl (Sys_Error (''File name in '' @ packfile
                                  @ '' exceeds maximum allowed length.''))
            else Inr (Some \<lparr>name = q_strlcpy buf 64, filepos = ucast (m_file_index st),
                             filelen = ucast (m_uncomp_size st)\<rparr>)))"
    using False unfolding tr_def conv_def buf_def n_def raw_def
    by (simp only: QFS_LoadPK3File_entry_eq [OF st] if_False)
  have cb: "c_str buf = take n (c_str raw)"
    unfolding buf_def c_str_def by (rule takeWhile_take)
  have nm: "r = Some \<lparr>name = spec_stored_name st, filepos = ucast (m_file_index st),
                       filelen = ucast (m_uncomp_size st)\<rparr>"
  proof (cases tr)
    case True
    with res eq have short: "length conv + 1 < 64"
      and r: "r = Some \<lparr>name = q_strlcpy conv 64, filepos = ucast (m_file_index st),
                         filelen = ucast (m_uncomp_size st)\<rparr>"
      by (auto split: if_splits)
    have "length (c_str buf) \<le> length conv"
      using length_UTF8_FromIBM437 [of buf] by (simp add: conv_def)
    with short have lcb: "length (c_str buf) < 63" by simp
    have "length (c_str raw) \<le> n"
    proof (rule ccontr)
      assume "\<not> length (c_str raw) \<le> n"
      then have "n < length (c_str raw)" by simp
      then have "length (c_str buf) = n" by (simp add: cb)
      with lcb have "n < 63" by simp
      then have "n = length raw" by (simp add: n_def min_def split: if_splits)
      with \<open>n < length (c_str raw)\<close> length_c_str [of raw] show False by simp
    qed
    then have cbr: "c_str buf = c_str raw" by (simp add: cb)
    have "UTF8_FromIBM437 buf = UTF8_FromIBM437 raw"
      using UTF8_FromIBM437_c_str [of buf] UTF8_FromIBM437_c_str [of raw] cbr by simp
    then have cv: "conv = fst (UTF8_FromIBM437 raw)" by (simp add: conv_def)
    have "0 \<notin> set conv" unfolding conv_def by (rule UTF8_FromIBM437_has_no_NUL)
    then have q: "q_strlcpy conv 64 = conv"
      by (rule q_strlcpy_short) (use short in simp)
    from True have "(m_bit_flag st AND push_bit 11 1) = 0" "\<not> q_strascii buf"
      by (simp_all add: tr_def)
    then have "(m_bit_flag st AND push_bit 11 1) = 0 \<and> (\<exists>b \<in> set (c_str raw). b \<ge> 0x80)"
      unfolding q_strascii_def cbr by (auto simp: not_less)
    then have "spec_stored_name st = fst (UTF8_FromIBM437 raw)"
      unfolding spec_stored_name_def raw_def by simp
    with r q cv show ?thesis by simp
  next
    case False
    with res eq have short: "length buf + 1 < 64"
      and r: "r = Some \<lparr>name = q_strlcpy buf 64, filepos = ucast (m_file_index st),
                         filelen = ucast (m_uncomp_size st)\<rparr>"
      by (auto split: if_splits)
    from short have "n < 63" by (simp add: buf_def n_def min_def split: if_splits)
    then have "n = length raw" by (simp add: n_def min_def split: if_splits)
    then have br: "buf = raw" by (simp add: buf_def)
    have q: "q_strlcpy buf 64 = c_str raw"
      unfolding br by (rule q_strlcpy_c_str) (use short br in simp)
    from False have "(m_bit_flag st AND push_bit 11 1) \<noteq> 0 \<or> q_strascii raw"
      by (simp add: tr_def br)
    then have "\<not> ((m_bit_flag st AND push_bit 11 1) = 0
                 \<and> (\<exists>b \<in> set (c_str (m_filename st)). b \<ge> 0x80))"
      unfolding q_strascii_def raw_def by (auto simp: not_less)
    then have "spec_stored_name st = c_str raw"
      unfolding spec_stored_name_def raw_def by (rule if_not_P)
    with r q show ?thesis by simp
  qed
  with False show ?thesis by (simp add: spec_stored_entry_def)
qed


lemma unat_32_of_nat: "i < 2 ^ 32 \<Longrightarrow> unat (word_of_nat i :: 32 word) = i"
  by (simp add: unat_of_nat)

lemma QFS_LoadPK3File_loop_Inr:
  assumes "QFS_LoadPK3File_loop packfile pk3 is acc = Inr newfiles"
      and "\<forall>i \<in> set is. i < 2 ^ 32"
  shows "newfiles = acc @ map spec_stored_entry
            (filter (\<lambda>st. \<not> m_is_directory st) (map (\<lambda>i. m_central_dir pk3 ! i) is))"
  using assms
proof (induction "is" arbitrary: acc)
  case Nil
  then show ?case by simp
next
  case (Cons i js)
  have i32: "unat (word_of_nat i :: 32 word) = i"
    using Cons.prems(2) by (simp add: unat_32_of_nat)
  have small: "\<forall>i \<in> set js. i < 2 ^ 32" using Cons.prems(2) by simp
  show ?case
  proof (cases "i < length (m_central_dir pk3)")
    case False
    then have "QFS_LoadPK3File_entry packfile pk3 (word_of_nat i)
                 = Inl (Sys_Error (''Failed to get status of an entry in '' @ packfile))"
      by (simp add: QFS_LoadPK3File_entry_def mz_zip_reader_file_stat_def i32)
    with Cons.prems(1) show ?thesis by simp
  next
    case True
    define st where "st = m_central_dir pk3 ! i"
    have fs: "mz_zip_reader_file_stat pk3 (word_of_nat i) = Some st"
      using True by (simp add: mz_zip_reader_file_stat_def i32 st_def)
    show ?thesis
    proof (cases "QFS_LoadPK3File_entry packfile pk3 (word_of_nat i)")
      case (Inl e)
      with Cons.prems(1) show ?thesis by simp
    next
      case (Inr r)
      have r: "r = (if m_is_directory st then None else Some (spec_stored_entry st))"
        using fs Inr by (rule QFS_LoadPK3File_entry_Inr)
      show ?thesis
      proof (cases "m_is_directory st")
        case True
        with r Inr Cons.prems(1)
        have "QFS_LoadPK3File_loop packfile pk3 js acc = Inr newfiles" by simp
        from Cons.IH [OF this small] True show ?thesis by (simp add: st_def)
      next
        case False
        with r Inr Cons.prems(1)
        have "QFS_LoadPK3File_loop packfile pk3 js (acc @ [spec_stored_entry st]) = Inr newfiles"
          by simp
        from Cons.IH [OF this small] False show ?thesis by (simp add: st_def)
      qed
    qed
  qed
qed

text \<open>Entries with short names are stored.\<close>
lemma QFS_LoadPK3File_entry_short:
  assumes st: "mz_zip_reader_file_stat pk3 i = Some st"
      and nd: "\<not> m_is_directory st"
      and sz: "m_uncomp_size st \<le> INT_MAX"
      and ln: "length (m_filename st) \<le> 20"
  shows "QFS_LoadPK3File_entry packfile pk3 i = Inr (Some (spec_stored_entry st))"
proof -
  define buf where "buf = take (min (length (m_filename st)) 511) (m_filename st)"
  have lb: "length buf \<le> 20" using ln by (simp add: buf_def)
  have "length (fst (UTF8_FromIBM437 buf)) \<le> 3 * length (c_str buf)"
    using length_UTF8_FromIBM437 [of buf] by simp
  also have "\<dots> \<le> 3 * length buf" using length_c_str [of buf] by simp
  finally have lc: "length (fst (UTF8_FromIBM437 buf)) \<le> 60" using lb by simp
  have "\<exists>r. QFS_LoadPK3File_entry packfile pk3 i = Inr r"
    using nd sz lb lc unfolding buf_def
    by (simp add: QFS_LoadPK3File_entry_eq [OF st] not_less [symmetric] del: not_less)
  then obtain r where r: "QFS_LoadPK3File_entry packfile pk3 i = Inr r" by blast
  from QFS_LoadPK3File_entry_Inr [OF st r] nd r show ?thesis by simp
qed

lemma QFS_LoadPK3File_loop_short:
  assumes "\<forall>i \<in> set is. i < 2 ^ 32 \<and> i < length (m_central_dir pk3)
             \<and> (\<not> m_is_directory (m_central_dir pk3 ! i)
                  \<longrightarrow> m_uncomp_size (m_central_dir pk3 ! i) \<le> INT_MAX
                      \<and> length (m_filename (m_central_dir pk3 ! i)) \<le> 20)"
  shows "QFS_LoadPK3File_loop packfile pk3 is acc = Inr (acc @ map spec_stored_entry
            (filter (\<lambda>st. \<not> m_is_directory st) (map (\<lambda>i. m_central_dir pk3 ! i) is)))"
  using assms
proof (induction "is" arbitrary: acc)
  case Nil
  then show ?case by simp
next
  case (Cons i js)
  define st where "st = m_central_dir pk3 ! i"
  have i32: "unat (word_of_nat i :: 32 word) = i"
    using Cons.prems by (simp add: unat_32_of_nat)
  have fs: "mz_zip_reader_file_stat pk3 (word_of_nat i) = Some st"
    using Cons.prems by (simp add: mz_zip_reader_file_stat_def i32 st_def)
  have rest: "\<forall>i \<in> set js. i < 2 ^ 32 \<and> i < length (m_central_dir pk3)
             \<and> (\<not> m_is_directory (m_central_dir pk3 ! i)
                  \<longrightarrow> m_uncomp_size (m_central_dir pk3 ! i) \<le> INT_MAX
                      \<and> length (m_filename (m_central_dir pk3 ! i)) \<le> 20)"
    using Cons.prems by simp
  show ?case
  proof (cases "m_is_directory st")
    case True
    then have "QFS_LoadPK3File_entry packfile pk3 (word_of_nat i) = Inr None"
      by (simp add: QFS_LoadPK3File_entry_eq [OF fs])
    with Cons.IH [OF rest, of acc] True show ?thesis by (simp add: st_def)
  next
    case False
    with Cons.prems have "m_uncomp_size st \<le> INT_MAX" "length (m_filename st) \<le> 20"
      by (simp_all add: st_def)
    with fs False
    have "QFS_LoadPK3File_entry packfile pk3 (word_of_nat i) = Inr (Some (spec_stored_entry st))"
      by (intro QFS_LoadPK3File_entry_short)
    with Cons.IH [OF rest, of "acc @ [spec_stored_entry st]"] False
    show ?thesis by (simp add: st_def)
  qed
qed

lemma names_spec_files:
  "spec_stored_files pk3_example
     = [\<lparr>name = [0xC3, 0xA9], filepos = 0, filelen = 10\<rparr>,
        \<lparr>name = [0x82], filepos = 1, filelen = 10\<rparr>]"
  by (simp add: spec_stored_files_def spec_stored_entry_def spec_stored_name_def pk3_example_def
      upt_rec c_str_def UTF8_FromIBM437_def cp437_to_unicode_def cp437_high_def
      UTF8_WriteCodePoint_def Let_def)

text \<open>
  Claim C7, as amended. For a PK3 file that is opened and has entries, whenever
  \<^verbatim>\<open>QFS_LoadPK3File\<close> returns, it has registered the pack whose entries are, in the order of
  the central directory, its entries that are no directories, each with its index, its
  uncompressed size and this name: with bit 11 of the flags clear and a byte \<open>\<ge> 0x80\<close>
  in the name, the IBM437-to-UTF-8 transcoding of the name, otherwise the name itself,
  where the name is read as a string (the raw bytes before the first NUL). It does return
  so when every entry is in the directory and every entry that is no directory is at
  most \<^verbatim>\<open>INT_MAX\<close> bytes long and has a name of at most 20 bytes. For a raw name without
  a NUL byte this is the claim as it was stated: a byte \<open>\<ge> 0x80\<close> and bit 11 clear give
  the transcoding of the raw bytes, bit 11 set gives the raw bytes unchanged; the byte
  \<open>0x82\<close> is transcoded to \<open>0xC3 0xA9\<close>.
\<close>
theorem QFS_LoadPK3File_stored_names:
  assumes opened: "fopen fs packfile = Some pk3handle"
      and init: "mz_zip_reader_init mz pk3handle (word_of_int (Sys_filelength pk3handle)) = Some pk3"
      and some: "m_total_files pk3 \<noteq> 0"
  defines "pack \<equiv>
     \<lparr>handle = pk3handle, filename = q_strlcpy_str packfile,
      numfiles = word_of_nat (length (spec_stored_files pk3)),
      files = Some (spec_stored_files pk3), pack_impl_data = Some pk3, pakver = 3,
      open_file = ZIP_Open_fn\<rparr>"
  shows "(\<forall>r. QFS_LoadPK3File mz fs packs packfile = Inr r
              \<longrightarrow> r = QFS_RegisterPack packs pack) \<and>
         ((\<forall>i < unat (m_total_files pk3). i < length (m_central_dir pk3)
              \<and> (\<not> m_is_directory (m_central_dir pk3 ! i)
                   \<longrightarrow> m_uncomp_size (m_central_dir pk3 ! i) \<le> INT_MAX
                       \<and> length (m_filename (m_central_dir pk3 ! i)) \<le> 20))
            \<longrightarrow> QFS_LoadPK3File mz fs packs packfile = Inr (QFS_RegisterPack packs pack)) \<and>
         (\<forall>st. 0 \<notin> set (m_filename st) \<longrightarrow>
            ((m_bit_flag st AND push_bit 11 1) = 0 \<and> (\<exists>b \<in> set (m_filename st). b \<ge> 0x80)
               \<longrightarrow> spec_stored_name st = fst (UTF8_FromIBM437 (m_filename st))) \<and>
            ((m_bit_flag st AND push_bit 11 1) \<noteq> 0 \<longrightarrow> spec_stored_name st = m_filename st)) \<and>
         fst (UTF8_FromIBM437 [0x82]) = [0xC3, 0xA9]"
proof -
  let ?is = "[0 ..< unat (m_total_files pk3)]"
  have small: "\<forall>i \<in> set ?is. i < 2 ^ 32"
    using unsigned_less [of "m_total_files pk3", where ?'a = nat] by simp
  have a: "r = QFS_RegisterPack packs pack"
    if "QFS_LoadPK3File mz fs packs packfile = Inr r" for r
  proof (cases "QFS_LoadPK3File_loop packfile pk3 ?is []")
    case (Inl e)
    with that opened init some show ?thesis by (simp add: QFS_LoadPK3File_def)
  next
    case (Inr newfiles)
    from QFS_LoadPK3File_loop_Inr [OF Inr small]
    have "newfiles = spec_stored_files pk3" by (simp add: spec_stored_files_def)
    with that opened init some Inr show ?thesis
      by (simp add: QFS_LoadPK3File_def pack_def)
  qed
  have b: "QFS_LoadPK3File mz fs packs packfile = Inr (QFS_RegisterPack packs pack)"
    if ok: "\<forall>i < unat (m_total_files pk3). i < length (m_central_dir pk3)
              \<and> (\<not> m_is_directory (m_central_dir pk3 ! i)
                   \<longrightarrow> m_uncomp_size (m_central_dir pk3 ! i) \<le> INT_MAX
                       \<and> length (m_filename (m_central_dir pk3 ! i)) \<le> 20)"
  proof -
    have "\<forall>i \<in> set ?is. i < 2 ^ 32 \<and> i < length (m_central_dir pk3)
             \<and> (\<not> m_is_directory (m_central_dir pk3 ! i)
                  \<longrightarrow> m_uncomp_size (m_central_dir pk3 ! i) \<le> INT_MAX
                      \<and> length (m_filename (m_central_dir pk3 ! i)) \<le> 20)"
      using ok small by simp
    from QFS_LoadPK3File_loop_short [OF this, of packfile "[]"]
    have "QFS_LoadPK3File_loop packfile pk3 ?is [] = Inr (spec_stored_files pk3)"
      by (simp add: spec_stored_files_def)
    with opened init some show ?thesis
      by (simp add: QFS_LoadPK3File_def pack_def)
  qed
  have c: "((m_bit_flag st AND push_bit 11 1) = 0 \<and> (\<exists>b \<in> set (m_filename st). b \<ge> 0x80)
               \<longrightarrow> spec_stored_name st = fst (UTF8_FromIBM437 (m_filename st))) \<and>
            ((m_bit_flag st AND push_bit 11 1) \<noteq> 0 \<longrightarrow> spec_stored_name st = m_filename st)"
    if "0 \<notin> set (m_filename st)" for st
    using c_str_no_NUL [OF that] by (simp add: spec_stored_name_def)
  have d: "fst (UTF8_FromIBM437 [0x82]) = [0xC3, 0xA9]"
    by (simp add: UTF8_FromIBM437_def c_str_def cp437_to_unicode_def cp437_high_def
        UTF8_WriteCodePoint_def Let_def)
  from a b c d show ?thesis by blast
qed

theorem QFS_LoadPK3File_stored_names_witness:
  "fopen names_fs ''id1/pak1.pk3'' = Some \<lparr>contents = replicate 300 0, fpos = 0\<rparr> \<and>
   mz_zip_reader_init names_zip \<lparr>contents = replicate 300 0, fpos = 0\<rparr>
       (word_of_int (Sys_filelength \<lparr>contents = replicate 300 0, fpos = 0\<rparr>)) = Some pk3_example \<and>
   m_total_files pk3_example = 2 \<and>
   QFS_LoadPK3File names_zip names_fs packs_initial ''id1/pak1.pk3''
     = Inr (QFS_RegisterPack packs_initial
              \<lparr>handle = \<lparr>contents = replicate 300 0, fpos = 0\<rparr>, filename = ''id1/pak1.pk3'',
               numfiles = 2,
               files = Some [\<lparr>name = [0xC3, 0xA9], filepos = 0, filelen = 10\<rparr>,
                             \<lparr>name = [0x82], filepos = 1, filelen = 10\<rparr>],
               pack_impl_data = Some pk3_example, pakver = 3, open_file = ZIP_Open_fn\<rparr>)"
proof -
  let ?f = "\<lparr>contents = replicate 300 0, fpos = 0\<rparr> :: FILE"
  have o: "fopen names_fs ''id1/pak1.pk3'' = Some ?f"
    by (simp add: fopen_def names_fs_def)
  have i: "mz_zip_reader_init names_zip ?f (word_of_int (Sys_filelength ?f)) = Some pk3_example"
    by (simp add: names_zip_def)
  have t: "m_total_files pk3_example = 2" "m_total_files pk3_example \<noteq> 0"
    by (simp_all add: pk3_example_def)
  have ok: "\<forall>i < unat (m_total_files pk3_example). i < length (m_central_dir pk3_example)
              \<and> (\<not> m_is_directory (m_central_dir pk3_example ! i)
                   \<longrightarrow> m_uncomp_size (m_central_dir pk3_example ! i) \<le> INT_MAX
                       \<and> length (m_filename (m_central_dir pk3_example ! i)) \<le> 20)"
  proof -
    have u: "unat (m_total_files pk3_example) = 2" by (simp add: pk3_example_def)
    show ?thesis unfolding u
      by (auto simp: pk3_example_def INT_MAX_def less_2_cases_iff)
  qed
  from QFS_LoadPK3File_stored_names [OF o i t(2), of packs_initial] ok
  have "QFS_LoadPK3File names_zip names_fs packs_initial ''id1/pak1.pk3''
     = Inr (QFS_RegisterPack packs_initial
              \<lparr>handle = ?f, filename = q_strlcpy_str ''id1/pak1.pk3'',
               numfiles = word_of_nat (length (spec_stored_files pk3_example)),
               files = Some (spec_stored_files pk3_example),
               pack_impl_data = Some pk3_example, pakver = 3, open_file = ZIP_Open_fn\<rparr>)"
    by blast
  then show ?thesis using o i t(1)
    by (simp add: names_spec_files q_strlcpy_str_def MAX_OSPATH_def)
qed

text \<open>
  Claim C7 as it was stated fails for a raw name with a NUL byte: names are C strings
  in the loader. The entry with bit 11 set and the raw name \<open>0x82 0x00 0x41\<close> is
  stored, in the pack registered under the id 1, with the name \<open>0x82\<close>.
\<close>
theorem QFS_LoadPK3File_name_with_NUL_cut:
  "QFS_LoadPK3File nul_zip names_fs packs_initial ''id1/pak1.pk3''
     = Inr (1, packs_initial[1 := Some nul_pack], []) \<and>
   m_central_dir pk3_nul_example = [nul_stat] \<and>
   (m_bit_flag nul_stat AND push_bit 11 1) \<noteq> 0 \<and>
   m_filename nul_stat = [0x82, 0x00, 0x41] \<and>
   files nul_pack = Some [\<lparr>name = [0x82], filepos = 0, filelen = 10\<rparr>] \<and>
   [0x82] \<noteq> m_filename nul_stat"
proof -
  have e: "QFS_LoadPK3File_entry ''id1/pak1.pk3'' pk3_nul_example 0
             = Inr (Some \<lparr>name = [0x82], filepos = 0, filelen = 10\<rparr>)"
    by (simp add: QFS_LoadPK3File_entry_def mz_zip_reader_file_stat_def
        mz_zip_reader_get_filename_def pk3_nul_example_def nul_stat_def q_strascii_def c_str_def
        q_strlcpy_def MAX_QPATH_def MZ_ZIP_MAX_ARCHIVE_FILENAME_SIZE_def INT_MAX_def Let_def)
  have t: "m_total_files pk3_nul_example = 1"
    by (simp add: pk3_nul_example_def)
  have r: "QFS_RegisterPack packs_initial nul_pack = (1, packs_initial[1 := Some nul_pack], [])"
    using QFS_RegisterPack_loop_first_free [of 1 1 packs_initial nul_pack]
    by (simp add: QFS_RegisterPack_def countof_packs_def MAX_PACK_FILES_def packs_initial_def)
  have "QFS_LoadPK3File nul_zip names_fs packs_initial ''id1/pak1.pk3''
          = Inr (QFS_RegisterPack packs_initial nul_pack)"
    by (simp add: QFS_LoadPK3File_def fopen_def names_fs_def nul_zip_def t e nul_pack_def
        q_strlcpy_str_def MAX_OSPATH_def)
  with r show ?thesis
    by (simp add: pk3_nul_example_def nul_stat_def nul_pack_def)
qed

section \<open>The streaming inflator: the flags of the decoder\<close>

text \<open>The flags are \<^verbatim>\<open>TINFL_FLAG_HAS_MORE_INPUT\<close> alone as long as the bytes read from the
  compressed stream do not exceed its size, which the refill keeps; they are never both
  flags.\<close>
lemma ZIP_Read_flags_cases:
  "ZIP_Read_flags p = (if foffs_in p \<le> sint (m_comp_size (stat p))
                       then TINFL_FLAG_HAS_MORE_INPUT
                       else TINFL_FLAG_USING_NON_WRAPPING_OUTPUT_BUF)"
  by (simp add: ZIP_Read_flags_def)

lemmas zip_defs =
  ZIP_Open_def PAK_Open_def QFS_AllocHandle_def mz_zip_reader_file_stat_def
  ZIP_Open_pak_offset_def ZIP_LowLevelRead_def LONG_MAX_def Sys_fseek_def fread_def le32_def
  le16_def q_min_def MZ_ZIP_MAX_IO_BUF_SIZE_def flag_log_zip_def deflated_archive_def
  deflated_stat_def deflated_pack_def deflated_reader_def deflated_buffers_def deflated_opened_def
  deflated_refilled_def deflated_inflated_def deflated_drained_def deflated_after_read_def
  offs_add_def TINFL_STATUS_DONE_def TINFL_FLAG_HAS_MORE_INPUT_def
  TINFL_FLAG_USING_NON_WRAPPING_OUTPUT_BUF_def Let_def
lemma deflated_opened_by_ZIP_Open: "ZIP_Open flag_log_zip Map.empty (deflated_pack 0) 0 False = Inr deflated_opened"
  by (simp add: zip_defs)

lemma deflated_refill: "ZIP_Read_refill ''id1/pak1.pk3'' deflated_opened deflated_buffers (deflated_reader 30)
           = Inr (deflated_refilled, deflated_reader 41)"
  by (simp add: ZIP_Read_refill_def zip_defs)

lemma deflated_flags: "foffs_in deflated_refilled = 10 \<and> sint (m_comp_size (stat deflated_refilled)) = 10 \<and>
   ZIP_Read_flags deflated_refilled = TINFL_FLAG_HAS_MORE_INPUT \<and>
   ZIP_Read_flags deflated_refilled AND TINFL_FLAG_USING_NON_WRAPPING_OUTPUT_BUF = 0"
  by (simp add: ZIP_Read_flags_def zip_defs)

lemma deflated_inflate: "ZIP_Read_inflate flag_log_zip ''id1/pak1.pk3'' deflated_refilled = Inr deflated_inflated"
  by (simp add: ZIP_Read_inflate_def ZIP_Read_flags_def zip_defs)

lemma deflated_step_1: "ZIP_Read_step flag_log_zip 20 ''id1/pak1.pk3''
             (deflated_opened, deflated_buffers, deflated_reader 30, 0, [])
           = Inr (deflated_opened, deflated_inflated, deflated_reader 41, 0, [])"
proof -
  have "\<not> (p_out deflated_buffers \<ge> bsz_out deflated_buffers \<or> eof_flag deflated_buffers)"
    by (simp add: zip_defs)
  then show ?thesis
    by (simp add: ZIP_Read_step_def deflated_refill deflated_inflate)
qed

lemma deflated_step_2: "ZIP_Read_step flag_log_zip 20 ''id1/pak1.pk3''
             (deflated_opened, deflated_inflated, deflated_reader 41, 0, [])
           = Inl (Inr (deflated_opened\<lparr>offs := 20\<rparr>, deflated_drained, deflated_reader 41, 20,
                       replicate 20 0x41))"
  by (simp add: ZIP_Read_step_def ZIP_Read_copy_def zip_defs)

lemma deflated_loop: "ZIP_Read_loop flag_log_zip 20 ''id1/pak1.pk3''
             (deflated_opened, deflated_buffers, deflated_reader 30, 0, [])
           = Some (Inr (deflated_opened\<lparr>offs := 20\<rparr>, deflated_drained, deflated_reader 41, 20,
                       replicate 20 0x41))"
  apply (subst ZIP_Read_loop.simps)
  apply (simp only: deflated_step_1 sum.case)
  apply (subst ZIP_Read_loop.simps)
  apply (simp only: deflated_step_2 sum.case)
  done

lemma deflated_ZIP_Read: "ZIP_Read flag_log_zip deflated_opened 20
             = Some (Inr (20, replicate 20 0x41, deflated_after_read))"
proof -
  have a: "the (impl_data deflated_opened) = deflated_buffers"
    and b: "the_pack (data deflated_opened) = deflated_pack 30"
    and c: "the (pack_impl_data (deflated_pack 30)) = deflated_reader 30"
    and d: "filename (deflated_pack 30) = ''id1/pak1.pk3''"
    and e: "\<not> m_is_directory (stat deflated_buffers)" "m_uncomp_size (stat deflated_buffers) \<noteq> 0"
    and f: "deflated_opened\<lparr>offs := 20, impl_data := Some deflated_drained,
               data := Data_pack ((deflated_pack 30)\<lparr>pack_impl_data := Some (deflated_reader 41)\<rparr>)\<rparr>
            = deflated_after_read"
    by (simp_all add: zip_defs)
  show ?thesis
    by (simp add: ZIP_Read_def a b c d e deflated_loop f)
qed

lemma deflated_QFS_ReadFile: "QFS_ReadFile flag_log_zip (Some deflated_opened) 20
             = Some (Inr (20, replicate 20 0x41, Some deflated_after_read))"
proof -
  have "call_filesize deflated_opened = 20" "offs deflated_opened = 0" "endtrim deflated_opened = 0"
       "read deflated_opened = ZIP_Read_fn"
    by (simp_all add: call_filesize_def PAK_FileSize_def zip_defs)
  then show ?thesis
    by (simp add: QFS_ReadFile_def call_read_def deflated_ZIP_Read)
qed

text \<open>
  Claim C8. In every pass of the loop the decoder is claimed to get the flag
  \<^verbatim>\<open>TINFL_FLAG_HAS_MORE_INPUT\<close> exactly when compressed bytes remain to be read
  (\<^verbatim>\<open>foffs_in < comp_size\<close>), together with the flag of a non-wrapping output buffer. The
  source tests \<^verbatim>\<open>comp_size >= foffs_in\<close>, and its conditional expression, binding weaker
  than \<^verbatim>\<open>|\<close>, yields the flag of the non-wrapping buffer only when that test fails. On the
  deflated entry of 10 compressed bytes the first refill reads all 10 bytes
  (\<^verbatim>\<open>foffs_in = comp_size = 10\<close>, nothing remains), and the decoder is called with
  \<^verbatim>\<open>TINFL_FLAG_HAS_MORE_INPUT\<close> alone: the flag of the non-wrapping buffer is not set. The
  flags that the decoder saw during a read of 20 bytes through \<^verbatim>\<open>QFS_ReadFile\<close> are that one
  value.
\<close>
theorem ZIP_Read_decoder_flags:
  "ZIP_Open flag_log_zip Map.empty (deflated_pack 0) 0 False = Inr deflated_opened \<and>
   ZIP_Read_refill ''id1/pak1.pk3'' deflated_opened deflated_buffers (deflated_reader 30)
     = Inr (deflated_refilled, deflated_reader 41) \<and>
   foffs_in deflated_refilled = 10 \<and>
   sint (m_comp_size (stat deflated_refilled)) = 10 \<and>
   ZIP_Read_flags deflated_refilled = TINFL_FLAG_HAS_MORE_INPUT \<and>
   ZIP_Read_flags deflated_refilled AND TINFL_FLAG_USING_NON_WRAPPING_OUTPUT_BUF = 0 \<and>
   QFS_ReadFile flag_log_zip (Some deflated_opened) 20
     = Some (Inr (20, replicate 20 0x41, Some deflated_after_read)) \<and>
   map_option infl (impl_data deflated_after_read) = Some [TINFL_FLAG_HAS_MORE_INPUT]"
proof -
  have "map_option infl (impl_data deflated_after_read) = Some [TINFL_FLAG_HAS_MORE_INPUT]"
    by (simp add: deflated_after_read_def deflated_drained_def deflated_inflated_def)
  with deflated_opened_by_ZIP_Open deflated_refill deflated_flags deflated_QFS_ReadFile
  show ?thesis by blast
qed

end
